theory Spec2Isabelle
  imports Complex_Main
begin

section \<open>The EveryAyah audio downloader (scripts/download\_everyayah.py)\<close>

text \<open>
  The development follows the script top down: the static tables, the strings and paths
  that name a file, the task catalog (\<open>generate_download_tasks\<close>), the fetch of
  one file (\<open>download_file\<close>), the worker that records its outcome
  (\<open>download_worker\<close>) and the download phase of \<open>main\<close>.
\<close>

subsection \<open>Static tables\<close>

record reciter =
  folder :: string
  name :: string
  style :: string

definition RECITERS :: "reciter list" where
  "RECITERS = [
  \<lparr>folder = ''Abdul_Basit_Murattal_192kbps'', name = ''Abdul Basit Abdul Samad'', style = ''Murattal''\<rparr>,
  \<lparr>folder = ''Abdul_Basit_Mujawwad_128kbps'', name = ''Abdul Basit Abdul Samad'', style = ''Mujawwad''\<rparr>,
  \<lparr>folder = ''Husary_128kbps'', name = ''Mahmoud Khalil Al-Hussary'', style = ''Murattal''\<rparr>,
  \<lparr>folder = ''Husary_Mujawwad_64kbps'', name = ''Mahmoud Khalil Al-Hussary'', style = ''Mujawwad''\<rparr>,
  \<lparr>folder = ''Minshawy_Murattal_128kbps'', name = ''Mohamed Siddiq Al-Minshawi'', style = ''Murattal''\<rparr>,
  \<lparr>folder = ''Minshawy_Mujawwad_64kbps'', name = ''Mohamed Siddiq Al-Minshawi'', style = ''Mujawwad''\<rparr>,
  \<lparr>folder = ''Ghamadi_40kbps'', name = ''Saad Al-Ghamdi'', style = ''Murattal''\<rparr>,
  \<lparr>folder = ''MaherAlMuaiqly128kbps'', name = ''Maher Al-Muaiqly'', style = ''Murattal''\<rparr>,
  \<lparr>folder = ''Muhammad_Ayyoub_128kbps'', name = ''Muhammad Ayyub'', style = ''Murattal''\<rparr>,
  \<lparr>folder = ''Abu_Bakr_Ash-Shaatree_128kbps'', name = ''Abu Bakr Al-Shatri'', style = ''Murattal''\<rparr>,
  \<lparr>folder = ''Hani_Rifai_192kbps'', name = ''Hani Ar-Rifai'', style = ''Murattal''\<rparr>,
  \<lparr>folder = ''ahmed_ibn_ali_al_ajamy_128kbps'', name = ''Ahmed ibn Ali al-Ajamy'', style = ''Murattal''\<rparr>,
  \<lparr>folder = ''Nasser_Alqatami_128kbps'', name = ''Nasser Al-Qatami'', style = ''Murattal''\<rparr>,
  \<lparr>folder = ''Mohammad_al_Tablaway_128kbps'', name = ''Mohammad al-Tablaway'', style = ''Murattal''\<rparr>,
  \<lparr>folder = ''Mustafa_Ismail_48kbps'', name = ''Mustafa Ismail'', style = ''Mujawwad''\<rparr>,
  \<lparr>folder = ''Salaah_AbdulRahman_Bukhatir_128kbps'', name = ''Salaah AbdulRahman Bukhatir'', style = ''Murattal''\<rparr>,
  \<lparr>folder = ''Muhsin_Al_Qasim_192kbps'', name = ''Muhsin Al-Qasim'', style = ''Murattal''\<rparr>,
  \<lparr>folder = ''Abdullaah_3awwaad_Al-Juhaynee_128kbps'', name = ''Abdullah Awad Al-Juhani'', style = ''Murattal''\<rparr>,
  \<lparr>folder = ''Salah_Al_Budair_128kbps'', name = ''Salah Al-Budair'', style = ''Murattal''\<rparr>,
  \<lparr>folder = ''Abdullah_Matroud_128kbps'', name = ''Abdullah Matroud'', style = ''Murattal''\<rparr>,
  \<lparr>folder = ''Ahmed_Neana_128kbps'', name = ''Ahmed Neana'', style = ''Murattal''\<rparr>,
  \<lparr>folder = ''Muhammad_AbdulKareem_128kbps'', name = ''Muhammad AbdulKareem'', style = ''Murattal''\<rparr>,
  \<lparr>folder = ''khalefa_al_tunaiji_64kbps'', name = ''Khalefa Al-Tunaiji'', style = ''Murattal''\<rparr>,
  \<lparr>folder = ''mahmoud_ali_al_banna_32kbps'', name = ''Mahmoud Ali Al-Banna'', style = ''Mujawwad''\<rparr>,
  \<lparr>folder = ''Khaalid_Abdullaah_al-Qahtaanee_192kbps'', name = ''Khalid Abdullah Al-Qahtani'', style = ''Murattal''\<rparr>,
  \<lparr>folder = ''Yasser_Ad-Dussary_128kbps'', name = ''Yasser Ad-Dussary'', style = ''Murattal''\<rparr>,
  \<lparr>folder = ''Ali_Hajjaj_AlSuesy_128kbps'', name = ''Ali Hajjaj Al-Suesy'', style = ''Murattal''\<rparr>,
  \<lparr>folder = ''Sahl_Yassin_128kbps'', name = ''Sahl Yassin'', style = ''Murattal''\<rparr>,
  \<lparr>folder = ''aziz_alili_128kbps'', name = ''Aziz Alili'', style = ''Murattal''\<rparr>,
  \<lparr>folder = ''Yaser_Salamah_128kbps'', name = ''Yaser Salamah'', style = ''Murattal''\<rparr>,
  \<lparr>folder = ''Akram_AlAlaqimy_128kbps'', name = ''Akram Al-Alaqimy'', style = ''Murattal''\<rparr>,
  \<lparr>folder = ''Ali_Jaber_64kbps'', name = ''Ali Jaber'', style = ''Murattal''\<rparr>,
  \<lparr>folder = ''Fares_Abbad_64kbps'', name = ''Fares Abbad'', style = ''Murattal''\<rparr>,
  \<lparr>folder = ''Ayman_Sowaid_64kbps'', name = ''Ayman Sowaid'', style = ''Murattal''\<rparr>,
  \<lparr>folder = ''Ibrahim_Akhdar_32kbps'', name = ''Ibrahim Al-Akhdar'', style = ''Murattal''\<rparr>,
  \<lparr>folder = ''Parhizgar_48kbps'', name = ''Shahriar Parhizgar'', style = ''Murattal''\<rparr>,
  \<lparr>folder = ''Saood_ash-Shuraym_128kbps'', name = ''Saud Ash-Shuraim'', style = ''Murattal''\<rparr>,
  \<lparr>folder = ''Abdullah_Basfar_192kbps'', name = ''Abdullah Basfar'', style = ''Murattal''\<rparr>,
  \<lparr>folder = ''Hudhaify_128kbps'', name = ''Ali Al-Hudhaify'', style = ''Murattal''\<rparr>,
  \<lparr>folder = ''Muhammad_Jibreel_128kbps'', name = ''Muhammad Jibreel'', style = ''Murattal''\<rparr>,
  \<lparr>folder = ''warsh/warsh_Abdul_Basit_128kbps'', name = ''Abdul Basit (Warsh)'', style = ''Warsh''\<rparr>,
  \<lparr>folder = ''warsh/warsh_ibrahim_aldosary_128kbps'', name = ''Ibrahim Ad-Dosari (Warsh)'', style = ''Warsh''\<rparr>,
  \<lparr>folder = ''Karim_Mansoori_40kbps'', name = ''Karim Mansoori'', style = ''Murattal''\<rparr>,
  \<lparr>folder = ''warsh/warsh_yassin_al_jazaery_64kbps'', name = ''Yassin Al-Jazaery'', style = ''Warsh''\<rparr>
  ]"

definition SURAH_AYAH_COUNTS :: "nat list" where
  "SURAH_AYAH_COUNTS = [
  7, 286, 200, 176, 120, 165, 206, 75, 129, 109,
  123, 111, 43, 52, 99, 128, 111, 110, 98, 135,
  112, 78, 118, 64, 77, 227, 93, 88, 69, 60,
  34, 30, 73, 54, 45, 83, 182, 88, 75, 85,
  54, 53, 89, 59, 37, 35, 38, 29, 18, 45,
  60, 49, 62, 55, 78, 96, 29, 22, 24, 13,
  14, 11, 11, 18, 12, 12, 30, 52, 52, 44,
  28, 28, 20, 56, 40, 31, 50, 40, 46, 42,
  29, 19, 36, 25, 22, 17, 19, 26, 30, 20,
  15, 21, 11, 8, 8, 19, 5, 8, 8, 11,
  11, 8, 3, 9, 5, 4, 7, 3, 6, 3,
  5, 4, 5, 6
  ]"

definition BASE_URL :: string where
  "BASE_URL = ''https://everyayah.com/data''"

definition MIN_VALID_FILE_SIZE :: nat where
  "MIN_VALID_FILE_SIZE = 1024"

subsection \<open>Strings: \<open>str\<close>, \<open>zfill\<close>, \<open>split\<close>\<close>

definition digit_char :: "nat \<Rightarrow> char" where
  "digit_char d = ''0123456789'' ! d"

text \<open>Python's \<open>str(n)\<close> for a non-negative integer: its decimal digits.\<close>

fun str_nat :: "nat \<Rightarrow> string" where
  "str_nat n = (if n < 10 then [digit_char n] else str_nat (n div 10) @ [digit_char (n mod 10)])"

declare str_nat.simps [simp del]

definition str_int :: "int \<Rightarrow> string" where
  "str_int i = (if i < 0 then CHR ''-'' # str_nat (nat (- i)) else str_nat (nat i))"

text \<open>
  \<open>s.zfill(width)\<close> pads with zeros on the left up to \<open>width\<close> characters, after a
  leading sign if there is one, and leaves a string that is long enough as it is.
\<close>

definition zfill :: "nat \<Rightarrow> string \<Rightarrow> string" where
  "zfill width s =
     (case s of
        [] \<Rightarrow> replicate width (CHR ''0'')
      | c # rest \<Rightarrow>
          if c = CHR ''+'' \<or> c = CHR ''-''
          then c # replicate (width - length s) (CHR ''0'') @ rest
          else replicate (width - length s) (CHR ''0'') @ s)"

text \<open>\<open>s.split(c)\<close> with a one-character separator; the empty string gives one empty piece.\<close>

fun split_on :: "char \<Rightarrow> string \<Rightarrow> string list" where
  "split_on c [] = [[]]"
| "split_on c (x # xs) =
     (if x = c then [] # split_on c xs
      else (case split_on c xs of
              [] \<Rightarrow> [[x]]
            | y # ys \<Rightarrow> (x # y) # ys))"

subsection \<open>Paths (pathlib, POSIX flavour)\<close>

text \<open>
  A \<open>Path\<close> is the list of its parts, as \<open>PurePosixPath.parts\<close> gives them: the root
  (\<open>/\<close>, or \<open>//\<close> for exactly two leading slashes) first when the path is absolute, then
  the components, with empty components and \<open>.\<close> dropped. Two paths are equal when
  their parts are.
\<close>

type_synonym path = "string list"

definition posix_root :: "string \<Rightarrow> string list" where
  "posix_root s =
     (if take 1 s = ''/''
      then (if take 2 s = ''//'' \<and> take 3 s \<noteq> ''///'' then [''//''] else [''/''])
      else [])"

definition parse_parts :: "string \<Rightarrow> path" where
  "parse_parts s =
     posix_root s @ filter (\<lambda>c. c \<noteq> [] \<and> c \<noteq> ''.'') (split_on (CHR ''/'') s)"

text \<open>\<open>p / s\<close>: an absolute right operand replaces the left one.\<close>

definition joinpath :: "path \<Rightarrow> string \<Rightarrow> path" where
  "joinpath p s = (if posix_root s \<noteq> [] then parse_parts s else p @ parse_parts s)"

definition path_name :: "path \<Rightarrow> string" where
  "path_name p = (if p = [] \<or> p = [''/''] \<or> p = [''//''] then [] else last p)"

text \<open>
  \<open>PurePath.suffix\<close>: the part of the name from its last dot on, when that dot is
  neither the first nor the last character of the name.
\<close>

definition py_suffix :: "string \<Rightarrow> string" where
  "py_suffix nm =
     (let ext = rev (takeWhile (\<lambda>c. c \<noteq> CHR ''.'') (rev nm))
      in if CHR ''.'' \<in> set nm \<and> length ext + 1 < length nm \<and> ext \<noteq> []
         then CHR ''.'' # ext else [])"

datatype py_error = ValueError

text \<open>\<open>p.with_suffix(s)\<close> for a well-formed suffix \<open>s\<close>; a path with an empty name raises.\<close>

definition with_suffix :: "path \<Rightarrow> string \<Rightarrow> py_error + path" where
  "with_suffix p s =
     (let nm = path_name p in
      if nm = [] then Inl ValueError
      else Inr (butlast p @ [take (length nm - length (py_suffix nm)) nm @ s]))"

subsection \<open>The task catalog\<close>

text \<open>A task is the tuple \<open>(url, output_path, reciter name, surah_num, ayah_num)\<close>.\<close>

type_synonym task = "string \<times> path \<times> string \<times> nat \<times> nat"

definition make_task :: "reciter \<Rightarrow> path \<Rightarrow> nat \<Rightarrow> nat \<Rightarrow> task" where
  "make_task reciter output_dir surah_num ayah_num =
     (let surah_str = zfill 3 (str_nat surah_num);
          ayah_str = zfill 3 (str_nat ayah_num);
          filename = surah_str @ ayah_str @ ''.mp3'';
          url = BASE_URL @ ''/'' @ folder reciter @ ''/'' @ filename;
          output_path = joinpath (joinpath output_dir (folder reciter)) filename
      in (url, output_path, name reciter, surah_num, ayah_num))"

text \<open>
  The three nested \<open>for\<close> statements, each appending to \<open>tasks\<close>: \<open>range(1, 115)\<close> is
  \<open>[1..<115]\<close>, and \<open>SURAH_AYAH_COUNTS[surah_num - 1]\<close> is always in range there.
\<close>

definition generate_download_tasks :: "reciter list \<Rightarrow> path \<Rightarrow> task list" where
  "generate_download_tasks reciters output_dir =
     foldl (\<lambda>tasks reciter.
       foldl (\<lambda>tasks surah_num.
         let ayah_count = SURAH_AYAH_COUNTS ! (surah_num - 1) in
         foldl (\<lambda>tasks ayah_num. tasks @ [make_task reciter output_dir surah_num ayah_num])
           tasks [1..<ayah_count + 1])
         tasks [1..<115])
       [] reciters"

definition task_path :: "task \<Rightarrow> path" where
  "task_path t = fst (snd t)"

text \<open>The file name that \<open>make_task\<close> builds for a surah and an ayah.\<close>

definition file_name :: "nat \<Rightarrow> nat \<Rightarrow> string" where
  "file_name surah_num ayah_num =
     zfill 3 (str_nat surah_num) @ zfill 3 (str_nat ayah_num) @ ''.mp3''"

subsection \<open>The file system, the transport and the trace of a fetch\<close>

text \<open>
  The file system gives the size of the file at a path, \<open>None\<close> where there is none.
  It never refuses an operation: \<open>unlink\<close>, \<open>open\<close>, \<open>write\<close>, \<open>rename\<close> and
  \<open>mkdir\<close> succeed, so the handlers that swallow an error of \<open>unlink\<close> have no
  branch of their own, and directories are not tracked.
\<close>

type_synonym fs = "path \<Rightarrow> nat option"

definition no_files :: fs where
  "no_files = (\<lambda>p. None)"

definition unlink :: "path \<Rightarrow> fs \<Rightarrow> fs" where
  "unlink p files = files(p := None)"

text \<open>\<open>src.rename(dst)\<close> replaces \<open>dst\<close>; renaming a file to itself changes nothing.\<close>

definition rename :: "path \<Rightarrow> path \<Rightarrow> fs \<Rightarrow> fs" where
  "rename src dst files = (if src = dst then files else (files(dst := files src))(src := None))"

definition path_parent :: "path \<Rightarrow> path" where
  "path_parent p = (if path_name p = [] then p else butlast p)"

text \<open>
  What one \<open>session.get(url, timeout=30, stream=True)\<close> does: it raises, or it gives a
  response with a status code and a body. The body is read only for status 200; it is the
  sizes of the chunks that \<open>iter_content\<close> yields and, when the transfer breaks, the
  exception raised after them. A session maps a URL and the number of the attempt to the
  reply of that call.
\<close>

datatype exc = Timeout | RequestException string

datatype reply = Raises exc | Response int "nat list" "exc option"

type_synonym session = "string \<Rightarrow> int \<Rightarrow> reply"

datatype event =
    Get string
  | Sleep int
  | Mkdir path
  | Write path nat
  | Rename path path
  | Unlink path

type_synonym outcome = "bool \<times> bool \<times> string option"

datatype flow = Return outcome | Continue

subsection \<open>\<open>download_file\<close>\<close>

text \<open>
  The three handlers end in the same way: sleep and \<open>continue\<close> unless this is the last
  attempt, else return the failure. \<open>k\<close> is the factor of the backoff (1 for an HTTP
  status, 2 for an exception).
\<close>

definition retry_or_fail :: "int \<Rightarrow> int \<Rightarrow> int \<Rightarrow> string \<Rightarrow> flow \<times> event list" where
  "retry_or_fail k retries attempt msg =
     (if attempt < retries - 1 then (Continue, [Sleep (k * (attempt + 1))])
      else (Return (False, False, Some msg), []))"

text \<open>\<open>except Timeout\<close> comes first, then \<open>except RequestException as e\<close> with \<open>str(e)\<close>.\<close>

definition except_clause :: "int \<Rightarrow> int \<Rightarrow> exc \<Rightarrow> flow \<times> event list" where
  "except_clause retries attempt e =
     (case e of
        Timeout \<Rightarrow> retry_or_fail 2 retries attempt ''Timeout''
      | RequestException msg \<Rightarrow> retry_or_fail 2 retries attempt msg)"

text \<open>
  The body of the \<open>try\<close> with its \<open>except\<close> clauses, for one attempt. \<open>written\<close> is
  the size of the temporary file when the \<open>with\<close> block is left (empty chunks are not
  written), which is what \<open>temp_path.stat().st_size\<close> then reads.
\<close>

definition try_attempt ::
  "string \<Rightarrow> path \<Rightarrow> path \<Rightarrow> session \<Rightarrow> int \<Rightarrow> int \<Rightarrow> fs \<Rightarrow> flow \<times> fs \<times> event list" where
  "try_attempt url output_path temp_path session retries attempt files =
     (case session url attempt of
        Raises e \<Rightarrow>
          (let (fl, ev) = except_clause retries attempt e in (fl, files, Get url # ev))
      | Response status_code chunks fault \<Rightarrow>
          if status_code = 200 then
            (let written = sum_list (filter (\<lambda>chunk. chunk \<noteq> 0) chunks);
                 files1 = files(temp_path \<mapsto> written)
             in case fault of
                  Some e \<Rightarrow>
                    (let (fl, ev) = except_clause retries attempt e
                     in (fl, files1, [Get url, Write temp_path written] @ ev))
                | None \<Rightarrow>
                    if written \<ge> MIN_VALID_FILE_SIZE
                    then (Return (True, False, None), rename temp_path output_path files1,
                          [Get url, Write temp_path written, Rename temp_path output_path])
                    else (Return (False, False, Some ''Downloaded file too small''),
                          unlink temp_path files1,
                          [Get url, Write temp_path written, Unlink temp_path]))
          else if status_code = 404 then
            (Return (False, False, Some ''404 Not Found''), files, [Get url])
          else
            (let (fl, ev) = retry_or_fail 1 retries attempt (''HTTP '' @ str_int status_code)
             in (fl, files, Get url # ev)))"

text \<open>The \<open>finally\<close> clause: remove the temporary file if it is there.\<close>

definition cleanup :: "path \<Rightarrow> fs \<Rightarrow> fs \<times> event list" where
  "cleanup temp_path files =
     (if files temp_path \<noteq> None then (unlink temp_path files, [Unlink temp_path])
      else (files, []))"

text \<open>\<open>for attempt in range(retries)\<close>, from \<open>attempt\<close> on, and the return after the loop.\<close>

function attempts ::
  "string \<Rightarrow> path \<Rightarrow> path \<Rightarrow> session \<Rightarrow> int \<Rightarrow> int \<Rightarrow> fs \<Rightarrow> outcome \<times> fs \<times> event list" where
  "attempts url output_path temp_path session retries attempt files =
     (if attempt < retries then
        (case try_attempt url output_path temp_path session retries attempt files of
           (fl, files1, ev1) \<Rightarrow>
             (case cleanup temp_path files1 of
                (files2, ev2) \<Rightarrow>
                  (case fl of
                     Return r \<Rightarrow> (r, files2, ev1 @ ev2)
                   | Continue \<Rightarrow>
                       (case attempts url output_path temp_path session retries (attempt + 1) files2 of
                          (r, files3, ev3) \<Rightarrow> (r, files3, ev1 @ ev2 @ ev3)))))
      else ((False, False, Some ''Max retries exceeded''), files, []))"
  by pat_completeness auto
termination
  by (relation "measure (\<lambda>(url, output_path, temp_path, session, retries, attempt, files).
        nat (retries - attempt))") auto

declare attempts.simps [simp del]

text \<open>
  The part of \<open>download_file\<close> after the check of the destination: the parent directory,
  the temporary path (\<open>with_suffix\<close> raises on a path without a name) and the loop.
\<close>

definition fetch ::
  "string \<Rightarrow> path \<Rightarrow> session \<Rightarrow> int \<Rightarrow> fs \<Rightarrow> (py_error + outcome) \<times> fs \<times> event list" where
  "fetch url output_path session retries files =
     (case with_suffix output_path ''.tmp'' of
        Inl e \<Rightarrow> (Inl e, files, [Mkdir (path_parent output_path)])
      | Inr temp_path \<Rightarrow>
          (case attempts url output_path temp_path session retries 0 files of
             (r, files', ev) \<Rightarrow> (Inr r, files', Mkdir (path_parent output_path) # ev)))"

definition download_file ::
  "string \<Rightarrow> path \<Rightarrow> session \<Rightarrow> int \<Rightarrow> bool \<Rightarrow> fs \<Rightarrow> (py_error + outcome) \<times> fs \<times> event list" where
  "download_file url output_path session retries force files =
     (case (if force then None else files output_path) of
        Some file_size \<Rightarrow>
          if file_size \<ge> MIN_VALID_FILE_SIZE then (Inr (True, True, None), files, [])
          else (case fetch url output_path session retries (unlink output_path files) of
                  (r, files', ev) \<Rightarrow> (r, files', Unlink output_path # ev))
      | None \<Rightarrow> fetch url output_path session retries files)"

text \<open>Readers of a trace and of a reply, for stating what a fetch did.\<close>

fun gets :: "event list \<Rightarrow> string list" where
  "gets [] = []"
| "gets (Get u # ev) = u # gets ev"
| "gets (e # ev) = gets ev"

fun sleeps :: "event list \<Rightarrow> int list" where
  "sleeps [] = []"
| "sleeps (Sleep d # ev) = d # sleeps ev"
| "sleeps (e # ev) = sleeps ev"

fun writes :: "event list \<Rightarrow> path list" where
  "writes [] = []"
| "writes (Write p n # ev) = p # writes ev"
| "writes (e # ev) = writes ev"

text \<open>The exception that a reply makes the attempt raise, if any.\<close>

definition raised :: "reply \<Rightarrow> exc option" where
  "raised r =
     (case r of
        Raises e \<Rightarrow> Some e
      | Response status_code chunks fault \<Rightarrow> if status_code = 200 then fault else None)"

definition exc_text :: "exc \<Rightarrow> string" where
  "exc_text e = (case e of Timeout \<Rightarrow> ''Timeout'' | RequestException msg \<Rightarrow> msg)"

text \<open>The condition under which \<open>download_file\<close> returns at once, without fetching.\<close>

definition already_present :: "bool \<Rightarrow> fs \<Rightarrow> path \<Rightarrow> bool" where
  "already_present force files output_path =
     (case (if force then None else files output_path) of
        Some file_size \<Rightarrow> file_size \<ge> MIN_VALID_FILE_SIZE
      | None \<Rightarrow> False)"

text \<open>A session that plays a list of replies, one per attempt, then times out.\<close>

definition scripted :: "reply list \<Rightarrow> session" where
  "scripted rs url attempt =
     (if 0 \<le> attempt \<and> nat attempt < length rs then rs ! nat attempt else Raises Timeout)"

text \<open>A destination of the catalog, its temporary sibling and its URL, for concrete runs.\<close>

definition demo_path :: path where
  "demo_path = [''out'', ''Husary_128kbps'', ''001001.mp3'']"

definition demo_temp :: path where
  "demo_temp = [''out'', ''Husary_128kbps'', ''001001.tmp'']"

definition demo_url :: string where
  "demo_url = ''https://everyayah.com/data/Husary_128kbps/001001.mp3''"

definition transient_replies :: "reply list" where
  "transient_replies =
     [Raises Timeout, Raises (RequestException ''Connection reset''),
      Response 200 [8192, 0, 300] (Some (RequestException ''Connection broken''))]"

subsection \<open>The counters and the worker\<close>

text \<open>An entry of \<open>failed_files\<close>: the dictionary that \<open>download_worker\<close> appends.\<close>

record failed_file =
  ff_url :: string
  ff_path :: string
  ff_reciter :: string
  ff_surah :: nat
  ff_ayah :: nat
  ff_error :: "string option"

record DownloadStats =
  total :: nat
  downloaded :: nat
  skipped :: nat
  failed :: nat
  verified :: nat
  failed_files :: "failed_file list"
  start_time :: "real option"

definition new_stats :: DownloadStats where
  "new_stats = \<lparr>total = 0, downloaded = 0, skipped = 0, failed = 0, verified = 0,
                 failed_files = [], start_time = None\<rparr>"

text \<open>\<open>stats.start(total)\<close>, with the reading of the clock.\<close>

definition start :: "DownloadStats \<Rightarrow> nat \<Rightarrow> real \<Rightarrow> DownloadStats" where
  "start stats n now = stats\<lparr>total := n, start_time := Some now\<rparr>"

fun join_with :: "string \<Rightarrow> string list \<Rightarrow> string" where
  "join_with sep [] = []"
| "join_with sep [x] = x"
| "join_with sep (x # y # ys) = x @ sep @ join_with sep (y # ys)"

text \<open>\<open>str(path)\<close>: the parts joined by slashes after the root, \<open>.\<close> for the empty path.\<close>

definition path_str :: "path \<Rightarrow> string" where
  "path_str p =
     (case p of
        [] \<Rightarrow> ''.''
      | r # rest \<Rightarrow>
          if r = ''/'' \<or> r = ''//'' then r @ join_with ''/'' rest else join_with ''/'' p)"

type_synonym worker_result = "py_error + (string \<times> bool \<times> bool \<times> string option)"

text \<open>
  \<open>download_worker\<close> calls \<open>download_file\<close> with the default \<open>retries = 3\<close> and then
  updates the shared counters. An exception of \<open>download_file\<close> leaves the worker before
  any counter is touched; it becomes the result of the future.
\<close>

definition download_worker ::
  "task \<Rightarrow> session \<Rightarrow> DownloadStats \<Rightarrow> bool \<Rightarrow> fs
     \<Rightarrow> worker_result \<times> DownloadStats \<times> fs \<times> event list" where
  "download_worker task session stats force files =
     (case task of (url, output_path, reciter_name, surah, ayah) \<Rightarrow>
        (case download_file url output_path session 3 force files of
           (Inl e, files', ev) \<Rightarrow> (Inl e, stats, files', ev)
         | (Inr (success, was_skipped, error), files', ev) \<Rightarrow>
             (Inr (url, success, was_skipped, error),
              (if success then
                 (if was_skipped then stats\<lparr>skipped := skipped stats + 1\<rparr>
                  else stats\<lparr>downloaded := downloaded stats + 1\<rparr>)
               else stats\<lparr>failed := failed stats + 1,
                           failed_files := failed_files stats @
                             [\<lparr>ff_url = url, ff_path = path_str output_path,
                               ff_reciter = reciter_name, ff_surah = surah, ff_ayah = ayah,
                               ff_error = error\<rparr>]\<rparr>),
              files', ev)))"

subsection \<open>The files that \<open>main\<close> writes\<close>

record progress =
  p_timestamp :: real
  p_total :: nat
  p_downloaded :: nat
  p_skipped :: nat
  p_failed :: nat
  p_failed_files :: "failed_file list"

record manifest =
  m_generated_at :: real
  m_base_url :: string
  m_reciters :: "reciter list"
  m_total_files :: nat
  m_downloaded :: nat
  m_skipped :: nat
  m_failed :: nat
  m_surah_ayah_counts :: "nat list"

datatype document =
    ProgressDoc progress
  | FailedDoc "failed_file list"
  | ManifestDoc manifest

text \<open>
  \<open>stats.save_progress(output_dir)\<close>: the checkpoint, written to
  \<open>.download_progress.json\<close> under the output directory. \<open>now\<close> is the clock when it
  is written.
\<close>

definition save_progress :: "DownloadStats \<Rightarrow> path \<Rightarrow> real \<Rightarrow> path \<times> document" where
  "save_progress stats output_dir now =
     (joinpath output_dir ''.download_progress.json'',
      ProgressDoc \<lparr>p_timestamp = now, p_total = total stats, p_downloaded = downloaded stats,
                   p_skipped = skipped stats, p_failed = failed stats,
                   p_failed_files = failed_files stats\<rparr>)"

subsection \<open>The download phase of \<open>main\<close>\<close>

text \<open>
  The thread pool runs the workers while \<open>main\<close> iterates over \<open>as_completed(futures)\<close>.
  A schedule is the order in which these steps reach the shared state:
  \<^item> \<open>WorkerDone i\<close>: the worker of task \<open>i\<close> makes its call of \<open>download_worker\<close>,
    taken as one step;
  \<^item> \<open>Completed t\<close>: one iteration of the loop of \<open>main\<close>, where \<open>time.time()\<close> reads
    \<open>t\<close>;
  \<^item> \<open>KeyboardInterrupt\<close>: the loop is left; workers that are still running go on
    while the pool shuts down.
  What is printed is not modelled, and the steps of two workers are not interleaved.
\<close>

datatype sched_event = WorkerDone nat | Completed real | KeyboardInterrupt

record run_state =
  rs_files :: fs
  rs_stats :: DownloadStats
  rs_results :: "worker_result list"
  rs_last_print_time :: real
  rs_last_save_time :: real
  rs_written :: "(path \<times> document) list"
  rs_interrupted :: bool

fun step :: "task list \<Rightarrow> session \<Rightarrow> bool \<Rightarrow> path \<Rightarrow> run_state \<Rightarrow> sched_event \<Rightarrow> run_state" where
  "step tasks session force output_dir st (WorkerDone i) =
     (if i < length tasks then
        (case download_worker (tasks ! i) session (rs_stats st) force (rs_files st) of
           (res, stats', files', ev) \<Rightarrow>
             st\<lparr>rs_files := files', rs_stats := stats', rs_results := rs_results st @ [res]\<rparr>)
      else st)"
| "step tasks session force output_dir st (Completed current_time) =
     (if rs_interrupted st then st
      else
        (let st1 = (if current_time - rs_last_print_time st \<ge> 2
                    then st\<lparr>rs_last_print_time := current_time\<rparr> else st)
         in if current_time - rs_last_save_time st1 \<ge> 30
            then st1\<lparr>rs_written := rs_written st1 @
                        [save_progress (rs_stats st1) output_dir current_time],
                     rs_last_save_time := current_time\<rparr>
            else st1))"
| "step tasks session force output_dir st KeyboardInterrupt = st\<lparr>rs_interrupted := True\<rparr>"

text \<open>
  After the loop: the report of the failed files if there are any, the manifest, and the
  exit status.
\<close>

definition finish :: "path \<Rightarrow> reciter list \<Rightarrow> real \<Rightarrow> run_state \<Rightarrow> int \<times> run_state" where
  "finish output_dir reciters now st =
     (let stats = rs_stats st;
          report = (if failed_files stats \<noteq> []
                    then [(joinpath output_dir ''failed_downloads.json'',
                           FailedDoc (failed_files stats))]
                    else []);
          manifest_doc = (joinpath output_dir ''manifest.json'',
             ManifestDoc \<lparr>m_generated_at = now, m_base_url = BASE_URL, m_reciters = reciters,
                           m_total_files = total stats, m_downloaded = downloaded stats,
                           m_skipped = skipped stats, m_failed = failed stats,
                           m_surah_ayah_counts = SURAH_AYAH_COUNTS\<rparr>)
      in (if failed stats = 0 then 0 else 1,
          st\<lparr>rs_written := rs_written st @ report @ [manifest_doc]\<rparr>))"

subsection \<open>\<open>main\<close>\<close>

text \<open>The fields of the parsed arguments carry the prefix \<open>arg_\<close>.\<close>

record args =
  arg_output :: "string option"
  arg_reciters :: "string option"
  arg_workers :: int
  arg_list_reciters :: bool
  arg_dry_run :: bool
  arg_force :: bool

text \<open>
  What the run meets outside the program: the files on disk, the server, the answer typed
  at the prompt (\<open>None\<close> when the input is at its end, where \<open>input\<close> raises
  \<open>EOFError\<close>), the readings of the clock and the schedule of the download phase.
\<close>

record env =
  env_files :: fs
  env_session :: session
  env_confirm :: "string option"
  env_start :: real
  env_loop_start :: real
  env_schedule :: "sched_event list"
  env_end :: real

text \<open>
  A string is the list of its code points, which the type of characters limits to those
  below 256. \<open>s.strip()\<close> removes the characters for which \<open>isspace\<close> holds, and
  \<open>s.lower()\<close> maps the upper-case letters, the ASCII ones and those of Latin-1, to
  the letter 32 code points above.
\<close>

definition is_space :: "char \<Rightarrow> bool" where
  "is_space c = (c \<in> set [CHR 0x09, CHR 0x0A, CHR 0x0B, CHR 0x0C, CHR 0x0D,
                             CHR 0x1C, CHR 0x1D, CHR 0x1E, CHR 0x1F, CHR 0x20,
                             CHR 0x85, CHR 0xA0])"

definition py_strip :: "string \<Rightarrow> string" where
  "py_strip s = rev (dropWhile is_space (rev (dropWhile is_space s)))"

definition upper_letters :: "char list" where
  "upper_letters = [
        CHR 0x41, CHR 0x42, CHR 0x43, CHR 0x44, CHR 0x45, CHR 0x46, CHR 0x47, CHR 0x48,
        CHR 0x49, CHR 0x4A, CHR 0x4B, CHR 0x4C, CHR 0x4D, CHR 0x4E, CHR 0x4F, CHR 0x50,
        CHR 0x51, CHR 0x52, CHR 0x53, CHR 0x54, CHR 0x55, CHR 0x56, CHR 0x57, CHR 0x58,
        CHR 0x59, CHR 0x5A, CHR 0xC0, CHR 0xC1, CHR 0xC2, CHR 0xC3, CHR 0xC4, CHR 0xC5,
        CHR 0xC6, CHR 0xC7, CHR 0xC8, CHR 0xC9, CHR 0xCA, CHR 0xCB, CHR 0xCC, CHR 0xCD,
        CHR 0xCE, CHR 0xCF, CHR 0xD0, CHR 0xD1, CHR 0xD2, CHR 0xD3, CHR 0xD4, CHR 0xD5,
        CHR 0xD6, CHR 0xD8, CHR 0xD9, CHR 0xDA, CHR 0xDB, CHR 0xDC, CHR 0xDD, CHR 0xDE]"

definition lower_letters :: "char list" where
  "lower_letters = [
        CHR 0x61, CHR 0x62, CHR 0x63, CHR 0x64, CHR 0x65, CHR 0x66, CHR 0x67, CHR 0x68,
        CHR 0x69, CHR 0x6A, CHR 0x6B, CHR 0x6C, CHR 0x6D, CHR 0x6E, CHR 0x6F, CHR 0x70,
        CHR 0x71, CHR 0x72, CHR 0x73, CHR 0x74, CHR 0x75, CHR 0x76, CHR 0x77, CHR 0x78,
        CHR 0x79, CHR 0x7A, CHR 0xE0, CHR 0xE1, CHR 0xE2, CHR 0xE3, CHR 0xE4, CHR 0xE5,
        CHR 0xE6, CHR 0xE7, CHR 0xE8, CHR 0xE9, CHR 0xEA, CHR 0xEB, CHR 0xEC, CHR 0xED,
        CHR 0xEE, CHR 0xEF, CHR 0xF0, CHR 0xF1, CHR 0xF2, CHR 0xF3, CHR 0xF4, CHR 0xF5,
        CHR 0xF6, CHR 0xF8, CHR 0xF9, CHR 0xFA, CHR 0xFB, CHR 0xFC, CHR 0xFD, CHR 0xFE]"

definition lower_char :: "char \<Rightarrow> char" where
  "lower_char c =
     (case map_of (zip upper_letters lower_letters) c of
        Some l \<Rightarrow> l
      | None \<Rightarrow> c)"

definition py_lower :: "string \<Rightarrow> string" where
  "py_lower s = map lower_char s"

text \<open>The \<open>--reciters\<close> filter: the reciters of the table whose folder is in the list.\<close>

definition select_reciters :: "string \<Rightarrow> reciter list" where
  "select_reciters s =
     (let reciter_folders = map py_strip (split_on (CHR '','') s)
      in filter (\<lambda>r. folder r \<in> set reciter_folders) RECITERS)"

text \<open>
  \<open>main\<close> gives the exit status of the program and, when the download phase ran, the
  state it ended in. Status 2 is the exit of \<open>parser.error\<close>. An exception that nothing
  catches ends the program with status 1 before any file is written: \<open>EOFError\<close> at the
  prompt, and \<open>ValueError\<close> from \<open>ThreadPoolExecutor(max_workers=args.workers)\<close>
  when the number of workers is not positive.
\<close>

definition main :: "args \<Rightarrow> env \<Rightarrow> int \<times> run_state option" where
  "main a e =
     (if arg_list_reciters a then (0, None)
      else if arg_output a = None \<or> arg_output a = Some [] then (2, None)
      else
        (let output_dir = parse_parts (the (arg_output a));
             filtered = (arg_reciters a \<noteq> None \<and> arg_reciters a \<noteq> Some []);
             selected_reciters = (if filtered then select_reciters (the (arg_reciters a)) else RECITERS)
         in if filtered \<and> selected_reciters = [] then (1, None)
            else
              (let tasks = generate_download_tasks selected_reciters output_dir;
                   total_files = length tasks
               in if arg_dry_run a then (0, None)
                  else
                    (case env_confirm e of
                       None \<Rightarrow> (1, None)
                     | Some confirm \<Rightarrow>
                         if py_lower confirm \<noteq> ''y'' then (0, None)
                         else if arg_workers a \<le> 0 then (1, None)
                         else
                           (let st0 = \<lparr>rs_files = env_files e,
                                       rs_stats = start new_stats total_files (env_start e),
                                       rs_results = [], rs_last_print_time = 0,
                                       rs_last_save_time = env_loop_start e, rs_written = [],
                                       rs_interrupted = False\<rparr>;
                                st1 = foldl (step tasks (env_session e) (arg_force a) output_dir)
                                        st0 (env_schedule e)
                            in (case finish output_dir selected_reciters (env_end e) st1 of
                                  (status, st2) \<Rightarrow> (status, Some st2)))))))"

text \<open>Readers of the results of the futures, of a schedule and of the written files.\<close>

definition failed_outcome :: "worker_result \<Rightarrow> bool" where
  "failed_outcome res =
     (case res of Inl e \<Rightarrow> False | Inr (url, success, was_skipped, error) \<Rightarrow> \<not> success)"

fun tick_times :: "sched_event list \<Rightarrow> real list" where
  "tick_times [] = []"
| "tick_times (Completed t # evs) = t # tick_times evs"
| "tick_times (e # evs) = tick_times evs"

text \<open>The part of a schedule before the user interrupts: the loop runs only there.\<close>

definition before_interrupt :: "sched_event list \<Rightarrow> sched_event list" where
  "before_interrupt sched = takeWhile (\<lambda>ev. ev \<noteq> KeyboardInterrupt) sched"

fun checkpoint_times :: "(path \<times> document) list \<Rightarrow> real list" where
  "checkpoint_times [] = []"
| "checkpoint_times ((p, ProgressDoc d) # ws) = p_timestamp d # checkpoint_times ws"
| "checkpoint_times (w # ws) = checkpoint_times ws"

text \<open>
  Saving on an interval, in the words of the specification: of the clock readings of the
  loop, those at which at least 30 seconds have passed since the last save (at first,
  since the loop started).
\<close>

fun due_saves :: "real \<Rightarrow> real list \<Rightarrow> real list" where
  "due_saves last_save [] = []"
| "due_saves last_save (t # ts) =
     (if t - last_save \<ge> 30 then t # due_saves t ts else due_saves last_save ts)"

definition written_paths :: "int \<times> run_state option \<Rightarrow> path list" where
  "written_paths res = (case snd res of None \<Rightarrow> [] | Some st \<Rightarrow> map fst (rs_written st))"

definition futures_done :: "int \<times> run_state option \<Rightarrow> nat" where
  "futures_done res = (case snd res of None \<Rightarrow> 0 | Some st \<Rightarrow> length (rs_results st))"

text \<open>
  A second run over a complete download of one reciter: the files of the catalog are there
  and nothing else, every task is done and handled within a second, and the user does not
  interrupt.
\<close>

definition complete_download :: fs where
  "complete_download p =
     (if p \<in> set (map task_path
           (generate_download_tasks (select_reciters ''Husary_128kbps'') (parse_parts ''out'')))
      then Some 2048 else None)"

primrec quick_schedule :: "nat \<Rightarrow> sched_event list" where
  "quick_schedule 0 = []"
| "quick_schedule (Suc n) = quick_schedule n @ [WorkerDone n, Completed 1]"

definition rerun_args :: args where
  "rerun_args = \<lparr>arg_output = Some ''out'', arg_reciters = Some ''Husary_128kbps'',
                  arg_workers = 5, arg_list_reciters = False, arg_dry_run = False,
                  arg_force = False\<rparr>"

definition rerun_env :: env where
  "rerun_env = \<lparr>env_files = complete_download, env_session = scripted [], env_confirm = Some ''y'',
                 env_start = 0, env_loop_start = 0, env_schedule = quick_schedule 6236,
                 env_end = 2\<rparr>"

text \<open>
  A user who answers \<open>Y\<close>, a server that answers 404, and an interrupt after the first
  file.
\<close>

definition failing_env :: env where
  "failing_env = \<lparr>env_files = no_files, env_session = scripted [Response 404 [] None],
                   env_confirm = Some ''Y'', env_start = 0, env_loop_start = 0,
                   env_schedule = [WorkerDone 0, Completed 1, KeyboardInterrupt],
                   env_end = 2\<rparr>"

text \<open>
  The reciters that \<open>main\<close> works on and the state in which its download phase starts,
  named for the proofs.
\<close>

definition chosen_reciters :: "args \<Rightarrow> reciter list" where
  "chosen_reciters a =
     (if arg_reciters a \<noteq> None \<and> arg_reciters a \<noteq> Some []
      then select_reciters (the (arg_reciters a)) else RECITERS)"

definition initial_state :: "args \<Rightarrow> env \<Rightarrow> run_state" where
  "initial_state a e =
     \<lparr>rs_files = env_files e,
      rs_stats = start new_stats
        (length (generate_download_tasks (chosen_reciters a) (parse_parts (the (arg_output a)))))
        (env_start e),
      rs_results = [], rs_last_print_time = 0, rs_last_save_time = env_loop_start e,
      rs_written = [], rs_interrupted = False\<rparr>"

text \<open>
  The counters agree with the results of the futures: one failure counted and one entry
  of \<open>failed_files\<close> for each failed outcome, and one of the three counters for each
  worker that returned.
\<close>

definition counted :: "run_state \<Rightarrow> bool" where
  "counted st =
     (failed (rs_stats st) = length (filter failed_outcome (rs_results st))
    \<and> length (failed_files (rs_stats st)) = failed (rs_stats st)
    \<and> downloaded (rs_stats st) + skipped (rs_stats st) + failed (rs_stats st)
         = length (filter (\<lambda>res. \<not> isl res) (rs_results st)))"

section \<open>Properties of the task catalog\<close>

lemma foldl_append_map: "foldl (\<lambda>acc x. acc @ [g x]) acc xs = acc @ map g xs"
  by (induction xs arbitrary: acc) simp_all

lemma foldl_append_concat:
  "foldl (\<lambda>acc x. acc @ f x) acc xs = acc @ concat (map f xs)"
  by (induction xs arbitrary: acc) simp_all

lemma generate_download_tasks_concat:
  "generate_download_tasks reciters output_dir =
     concat (map (\<lambda>reciter. concat (map (\<lambda>surah_num.
        map (\<lambda>ayah_num. make_task reciter output_dir surah_num ayah_num)
          [1..<SURAH_AYAH_COUNTS ! (surah_num - 1) + 1]) [1..<115])) reciters)"
  unfolding generate_download_tasks_def Let_def
  by (simp only: foldl_append_map foldl_append_concat append_Nil)

lemma map_nth_shift: "map (\<lambda>s. xs ! (s - 1)) [1..<length xs + 1] = xs"
proof -
  have "map (\<lambda>s. xs ! (s - 1)) [1..<length xs + 1] = map (\<lambda>i. xs ! i) [0..<length xs]"
    by (simp add: map_Suc_upt [symmetric] del: upt_Suc)
  thus ?thesis by (simp add: map_nth)
qed


lemma length_concat_const:
  "(\<And>x. x \<in> set xs \<Longrightarrow> length (f x) = c) \<Longrightarrow> length (concat (map f xs)) = length xs * c"
  by (induction xs) simp_all

lemma length_concat_sum: "length (concat (map f xs)) = sum_list (map (\<lambda>x. length (f x)) xs)"
  by (induction xs) simp_all

lemma surah_tasks_length:
  "length (concat (map (\<lambda>surah_num.
        map (g surah_num) [1..<SURAH_AYAH_COUNTS ! (surah_num - 1) + 1]) [1..<115]))
    = sum_list SURAH_AYAH_COUNTS"
proof -
  have len: "length SURAH_AYAH_COUNTS = 114" by (simp add: SURAH_AYAH_COUNTS_def)
  have "map (\<lambda>s. SURAH_AYAH_COUNTS ! (s - 1)) [1..<length SURAH_AYAH_COUNTS + 1] = SURAH_AYAH_COUNTS"
    by (rule map_nth_shift)
  hence "map (\<lambda>s. SURAH_AYAH_COUNTS ! (s - 1)) [1..<115] = SURAH_AYAH_COUNTS"
    by (simp only: len) simp
  thus ?thesis by (simp add: length_concat_sum del: upt_Suc)
qed

lemma catalog_length:
  "length (generate_download_tasks reciters output_dir) = length reciters * sum_list SURAH_AYAH_COUNTS"
  unfolding generate_download_tasks_concat
  by (rule length_concat_const) (rule surah_tasks_length)

lemma sum_surah_ayah_counts: "sum_list SURAH_AYAH_COUNTS = 6236"
  by (simp add: SURAH_AYAH_COUNTS_def)

text \<open>
  The two files that the docstring of the script names: surah 1, ayah 1 is the first task of
  a reciter, and surah 2, ayah 286 is the task at index 7 + 285.
\<close>

lemma catalog_nth_first_surahs:
  "generate_download_tasks [reciter] output_dir ! 0 = make_task reciter output_dir 1 1
   \<and> generate_download_tasks [reciter] output_dir ! 292 = make_task reciter output_dir 2 286"
proof -
  let ?G = "\<lambda>surah_num. map (\<lambda>ayah_num. make_task reciter output_dir surah_num ayah_num)
          [1..<SURAH_AYAH_COUNTS ! (surah_num - 1) + 1]"
  have u: "[1..<115] = 1 # 2 # [3..<115]"
  proof -
    have a: "[1..<115] = 1 # [Suc 1..<115]" by (rule upt_conv_Cons) simp
    have b: "[2..<115] = 2 # [Suc 2..<115]" by (rule upt_conv_Cons) simp
    have n: "Suc 1 = 2" "Suc 2 = 3" by simp_all
    show ?thesis by (simp only: a n b)
  qed
  have c1: "SURAH_AYAH_COUNTS ! (1 - 1) + 1 = 8" and c2: "SURAH_AYAH_COUNTS ! (2 - 1) + 1 = 287"
    by (simp_all add: SURAH_AYAH_COUNTS_def)
  have g: "generate_download_tasks [reciter] output_dir
      = ?G 1 @ ?G 2 @ concat (map ?G [3..<115])"
    unfolding generate_download_tasks_concat u by simp
  have l1: "length (?G 1) = 7" unfolding c1 by simp
  have l2: "length (?G 2) = 286" unfolding c2 by simp
  have "generate_download_tasks [reciter] output_dir ! 0 = ?G 1 ! 0"
    unfolding g using l1 by (simp add: nth_append del: upt_rec_numeral)
  also have "\<dots> = make_task reciter output_dir 1 1"
    unfolding c1 by (simp del: upt_rec_numeral)
  finally have first: "generate_download_tasks [reciter] output_dir ! 0 = make_task reciter output_dir 1 1" .
  have "generate_download_tasks [reciter] output_dir ! 292 = (?G 2 @ concat (map ?G [3..<115])) ! 285"
    unfolding g using l1 by (simp add: nth_append del: upt_rec_numeral)
  also have "\<dots> = ?G 2 ! 285"
    using l2 by (simp add: nth_append del: upt_rec_numeral)
  also have "\<dots> = make_task reciter output_dir 2 286"
    unfolding c2 by (simp del: upt_rec_numeral)
  finally show ?thesis using first by simp
qed

lemma make_task_examples:
  "make_task \<lparr>folder = ''Minshawy_Murattal_128kbps'', name = ''Mohamed Siddiq Al-Minshawi'',
               style = ''Murattal''\<rparr> [''out''] 1 1
     = (''https://everyayah.com/data/Minshawy_Murattal_128kbps/001001.mp3'',
        [''out'', ''Minshawy_Murattal_128kbps'', ''001001.mp3''],
        ''Mohamed Siddiq Al-Minshawi'', 1, 1)"
  "make_task \<lparr>folder = ''Minshawy_Murattal_128kbps'', name = ''Mohamed Siddiq Al-Minshawi'',
               style = ''Murattal''\<rparr> [''out''] 2 286
     = (''https://everyayah.com/data/Minshawy_Murattal_128kbps/002286.mp3'',
        [''out'', ''Minshawy_Murattal_128kbps'', ''002286.mp3''],
        ''Mohamed Siddiq Al-Minshawi'', 2, 286)"
  by (simp_all add: make_task_def Let_def zfill_def str_nat.simps digit_char_def BASE_URL_def
      joinpath_def parse_parts_def posix_root_def numeral_2_eq_2)

text \<open>
  Claim C5. \<open>generate_download_tasks\<close> is a function of its two arguments, so two calls
  with the same reciters and output directory give the same list. The list holds one task
  for each reciter, surah and ayah, in the order of the reciters, then of the surahs 1 to
  114, then of the ayahs 1 to the count of the surah; the task of a reciter, a surah and an
  ayah is the URL and the path of the file named by the two zero-padded numbers, the name of
  the reciter and the two numbers. The length of the list is the number of reciters times
  the sum of \<open>SURAH_AYAH_COUNTS\<close>. For one reciter, the tasks at the indices 0 and 292
  are the two files that the docstring gives as examples.
\<close>

theorem generate_download_tasks_order_and_count:
  "generate_download_tasks reciters output_dir =
     [(BASE_URL @ ''/'' @ folder reciter @ ''/''
         @ zfill 3 (str_nat surah_num) @ zfill 3 (str_nat ayah_num) @ ''.mp3'',
       joinpath (joinpath output_dir (folder reciter))
         (zfill 3 (str_nat surah_num) @ zfill 3 (str_nat ayah_num) @ ''.mp3''),
       name reciter, surah_num, ayah_num).
        reciter \<leftarrow> reciters, surah_num \<leftarrow> [1..<115],
        ayah_num \<leftarrow> [1..<SURAH_AYAH_COUNTS ! (surah_num - 1) + 1]]
   \<and> length (generate_download_tasks reciters output_dir)
       = length reciters * sum_list SURAH_AYAH_COUNTS
   \<and> generate_download_tasks
         [\<lparr>folder = ''Minshawy_Murattal_128kbps'', name = ''Mohamed Siddiq Al-Minshawi'',
           style = ''Murattal''\<rparr>] [''out''] ! 0
       = (''https://everyayah.com/data/Minshawy_Murattal_128kbps/001001.mp3'',
          [''out'', ''Minshawy_Murattal_128kbps'', ''001001.mp3''],
          ''Mohamed Siddiq Al-Minshawi'', 1, 1)
   \<and> generate_download_tasks
         [\<lparr>folder = ''Minshawy_Murattal_128kbps'', name = ''Mohamed Siddiq Al-Minshawi'',
           style = ''Murattal''\<rparr>] [''out''] ! 292
       = (''https://everyayah.com/data/Minshawy_Murattal_128kbps/002286.mp3'',
          [''out'', ''Minshawy_Murattal_128kbps'', ''002286.mp3''],
          ''Mohamed Siddiq Al-Minshawi'', 2, 286)"
proof (intro conjI)
  show "generate_download_tasks reciters output_dir =
     [(BASE_URL @ ''/'' @ folder reciter @ ''/''
         @ zfill 3 (str_nat surah_num) @ zfill 3 (str_nat ayah_num) @ ''.mp3'',
       joinpath (joinpath output_dir (folder reciter))
         (zfill 3 (str_nat surah_num) @ zfill 3 (str_nat ayah_num) @ ''.mp3''),
       name reciter, surah_num, ayah_num).
        reciter \<leftarrow> reciters, surah_num \<leftarrow> [1..<115],
        ayah_num \<leftarrow> [1..<SURAH_AYAH_COUNTS ! (surah_num - 1) + 1]]"
    by (simp only: generate_download_tasks_concat make_task_def Let_def)
  show "length (generate_download_tasks reciters output_dir)
       = length reciters * sum_list SURAH_AYAH_COUNTS"
    by (rule catalog_length)
  show "generate_download_tasks
         [\<lparr>folder = ''Minshawy_Murattal_128kbps'', name = ''Mohamed Siddiq Al-Minshawi'',
           style = ''Murattal''\<rparr>] [''out''] ! 0
       = (''https://everyayah.com/data/Minshawy_Murattal_128kbps/001001.mp3'',
          [''out'', ''Minshawy_Murattal_128kbps'', ''001001.mp3''],
          ''Mohamed Siddiq Al-Minshawi'', 1, 1)"
    by (simp only: catalog_nth_first_surahs [THEN conjunct1] make_task_examples)
  show "generate_download_tasks
         [\<lparr>folder = ''Minshawy_Murattal_128kbps'', name = ''Mohamed Siddiq Al-Minshawi'',
           style = ''Murattal''\<rparr>] [''out''] ! 292
       = (''https://everyayah.com/data/Minshawy_Murattal_128kbps/002286.mp3'',
          [''out'', ''Minshawy_Murattal_128kbps'', ''002286.mp3''],
          ''Mohamed Siddiq Al-Minshawi'', 2, 286)"
    by (simp only: catalog_nth_first_surahs [THEN conjunct2] make_task_examples)
qed

lemma digit_char_inj: "d < 10 \<Longrightarrow> e < 10 \<Longrightarrow> digit_char d = digit_char e \<Longrightarrow> d = e"
proof -
  have en: "\<And>n. n < 10 \<Longrightarrow> n \<in> {0, 1, 2, 3, 4, 5, 6, 7, 8, 9::nat}" by auto
  assume "d < 10" "e < 10" "digit_char d = digit_char e"
  with en [of d] en [of e] show ?thesis
    by (auto simp: digit_char_def)
qed

lemma digit_char_not_special: "d < 10 \<Longrightarrow> digit_char d \<noteq> CHR ''/'' \<and> digit_char d \<noteq> CHR ''+'' \<and> digit_char d \<noteq> CHR ''-'' \<and> digit_char d \<noteq> CHR ''.''"
proof -
  have en: "\<And>n. n < 10 \<Longrightarrow> n \<in> {0, 1, 2, 3, 4, 5, 6, 7, 8, 9::nat}" by auto
  assume "d < 10"
  with en [of d] show ?thesis
    by (auto simp: digit_char_def)
qed

lemma str_nat_1: "n < 10 \<Longrightarrow> str_nat n = [digit_char n]"
  by (simp add: str_nat.simps)

lemma str_nat_2: "10 \<le> n \<Longrightarrow> n < 100 \<Longrightarrow> str_nat n = [digit_char (n div 10), digit_char (n mod 10)]"
  by (subst str_nat.simps) (simp add: str_nat_1)

lemma str_nat_3: "100 \<le> n \<Longrightarrow> n < 1000 \<Longrightarrow>
   str_nat n = [digit_char (n div 100), digit_char (n div 10 mod 10), digit_char (n mod 10)]"
  by (subst str_nat.simps) (simp add: str_nat_2 div_mult2_eq [symmetric])

lemma digit_char_0: "digit_char 0 = CHR ''0''" by (simp add: digit_char_def)

lemma zfill3_str_nat:
  assumes "n < 1000"
  shows "zfill 3 (str_nat n) = [digit_char (n div 100), digit_char (n div 10 mod 10), digit_char (n mod 10)]"
proof -
  consider "n < 10" | "10 \<le> n" "n < 100" | "100 \<le> n" using assms by linarith
  then show ?thesis
  proof cases
    case 1
    then show ?thesis using digit_char_not_special [of n]
      by (simp add: str_nat_1 zfill_def digit_char_0 numeral_3_eq_3)
  next
    case 2
    hence "n div 10 < 10" by simp
    then show ?thesis using 2 digit_char_not_special [of "n div 10"]
      by (simp add: str_nat_2 zfill_def digit_char_0)
  next
    case 3
    hence "n div 100 < 10" using assms by simp
    then show ?thesis using 3 assms digit_char_not_special [of "n div 100"]
      by (simp add: str_nat_3 zfill_def)
  qed
qed

lemma three_digits_inj:
  assumes "n div 100 = m div 100" "n div 10 mod 10 = m div 10 mod 10" "n mod 10 = m mod 10"
  shows "n = (m::nat)"
proof -
  have "n div 10 div 10 = m div 10 div 10"
    using assms(1) by (simp add: div_mult2_eq [symmetric])
  hence "n div 10 = m div 10"
    using assms(2) by (metis div_mult_mod_eq)
  thus ?thesis
    using assms(3) by (metis div_mult_mod_eq)
qed

lemma zfill3_inj:
  assumes "n < 1000" "m < 1000" "zfill 3 (str_nat n) = zfill 3 (str_nat m)"
  shows "n = m"
proof -
  have a: "n div 100 < 10" "m div 100 < 10" using assms by simp_all
  from assms have e: "digit_char (n div 100) = digit_char (m div 100)"
     "digit_char (n div 10 mod 10) = digit_char (m div 10 mod 10)"
     "digit_char (n mod 10) = digit_char (m mod 10)"
    by (simp_all add: zfill3_str_nat)
  have "n div 100 = m div 100"
    by (rule digit_char_inj [OF a e(1)])
  moreover have "n div 10 mod 10 = m div 10 mod 10"
    by (rule digit_char_inj [OF _ _ e(2)]) simp_all
  moreover have "n mod 10 = m mod 10"
    by (rule digit_char_inj [OF _ _ e(3)]) simp_all
  ultimately show ?thesis by (rule three_digits_inj)
qed

lemma reciters_relative: "list_all (\<lambda>r. posix_root (folder r) = []) RECITERS"
  by (simp add: RECITERS_def posix_root_def)

lemma reciters_parts_distinct: "distinct (map (\<lambda>r. parse_parts (folder r)) RECITERS)"
  by (simp add: RECITERS_def parse_parts_def posix_root_def)

lemma task_path_make_task:
  "task_path (make_task r out s a) = joinpath (joinpath out (folder r)) (file_name s a)"
  by (simp add: task_path_def make_task_def file_name_def Let_def)

lemma split_on_no_sep: "c \<notin> set s \<Longrightarrow> split_on c s = [s]"
  by (induction s) auto

lemma length_zfill3: "n < 1000 \<Longrightarrow> length (zfill 3 (str_nat n)) = 3"
  by (simp add: zfill3_str_nat)

lemma zfill3_no_slash: "n < 1000 \<Longrightarrow> CHR ''/'' \<notin> set (zfill 3 (str_nat n))"
proof -
  assume n: "n < 1000"
  hence "n div 100 < 10" by simp
  moreover have "n div 10 mod 10 < 10" "n mod 10 < 10" by simp_all
  ultimately show ?thesis
    using digit_char_not_special [of "n div 100"] digit_char_not_special [of "n div 10 mod 10"]
      digit_char_not_special [of "n mod 10"] n
    by (auto simp: zfill3_str_nat)
qed

lemma file_name_inj:
  assumes "s < 1000" "a < 1000" "s' < 1000" "a' < 1000" "file_name s a = file_name s' a'"
  shows "s = s' \<and> a = a'"
proof -
  from assms have "zfill 3 (str_nat s) = zfill 3 (str_nat s') \<and> zfill 3 (str_nat a) = zfill 3 (str_nat a')"
    by (simp add: file_name_def length_zfill3)
  thus ?thesis using assms zfill3_inj by blast
qed

lemma parse_parts_file_name:
  assumes "s < 1000" "a < 1000"
  shows "posix_root (file_name s a) = []" "parse_parts (file_name s a) = [file_name s a]"
proof -
  have ns: "CHR ''/'' \<notin> set (file_name s a)"
    using zfill3_no_slash [OF assms(1)] zfill3_no_slash [OF assms(2)]
    by (simp add: file_name_def)
  have len: "length (file_name s a) = 10"
    using assms by (simp add: file_name_def length_zfill3)
  hence ne: "file_name s a \<noteq> []" "file_name s a \<noteq> ''.''" by auto
  obtain c cs where c: "file_name s a = c # cs" using ne(1) by (cases "file_name s a") auto
  hence "c \<noteq> CHR ''/''" using ns by auto
  thus r: "posix_root (file_name s a) = []" by (simp add: posix_root_def c)
  show "parse_parts (file_name s a) = [file_name s a]"
    using ne by (simp add: parse_parts_def r split_on_no_sep [OF ns])
qed

lemma task_path_catalog:
  assumes "r \<in> set RECITERS" "s < 1000" "a < 1000"
  shows "task_path (make_task r out s a) = out @ parse_parts (folder r) @ [file_name s a]"
proof -
  have "posix_root (folder r) = []"
    using reciters_relative assms(1) by (simp add: list_all_iff)
  thus ?thesis
    by (simp add: task_path_make_task joinpath_def parse_parts_file_name [OF assms(2,3)])
qed

lemma surah_count_bound: "s \<in> set [1..<115] \<Longrightarrow> SURAH_AYAH_COUNTS ! (s - 1) < 1000"
proof -
  have "list_all (\<lambda>c. c < 1000) SURAH_AYAH_COUNTS" by (simp add: SURAH_AYAH_COUNTS_def)
  moreover have "length SURAH_AYAH_COUNTS = 114" by (simp add: SURAH_AYAH_COUNTS_def)
  moreover assume "s \<in> set [1..<115]"
  ultimately show ?thesis by (auto simp: list_all_length)
qed

lemma distinct_concat_map:
  assumes "distinct xs"
    and "\<And>x. x \<in> set xs \<Longrightarrow> distinct (g x)"
    and "\<And>x y. x \<in> set xs \<Longrightarrow> y \<in> set xs \<Longrightarrow> x \<noteq> y \<Longrightarrow> set (g x) \<inter> set (g y) = {}"
  shows "distinct (concat (map g xs))"
  using assms
proof (induction xs)
  case Nil
  then show ?case by simp
next
  case (Cons x xs)
  have "distinct (concat (map g xs))"
    using Cons.prems by (intro Cons.IH) auto
  moreover have "distinct (g x)" using Cons.prems(2) by simp
  moreover have "set (g x) \<inter> set (concat (map g xs)) = {}"
  proof -
    have "\<And>y. y \<in> set xs \<Longrightarrow> set (g x) \<inter> set (g y) = {}"
      using Cons.prems(1,3) by auto
    thus ?thesis by auto
  qed
  ultimately show ?case by simp
qed

lemma catalog_paths_distinct:
  assumes rs: "distinct rs" "set rs \<subseteq> set RECITERS"
  shows "distinct (map task_path (generate_download_tasks rs out))"
proof -
  let ?P = "\<lambda>r s a. out @ parse_parts (folder r) @ [file_name s a]"
  let ?A = "\<lambda>r s. map (\<lambda>a. ?P r s a) [1..<SURAH_AYAH_COUNTS ! (s - 1) + 1]"
  let ?S = "\<lambda>r. concat (map (\<lambda>s. ?A r s) [1..<115])"
  have eq: "map task_path (generate_download_tasks rs out) = concat (map ?S rs)"
    unfolding generate_download_tasks_concat map_concat map_map comp_def
  proof (intro arg_cong [where f = concat] map_cong refl)
    fix r s a
    assume "r \<in> set rs" "s \<in> set [1..<115]" "a \<in> set [1..<SURAH_AYAH_COUNTS ! (s - 1) + 1]"
    moreover from this have "a < 1000" using surah_count_bound [of s] by auto
    ultimately show "task_path (make_task r out s a) = ?P r s a"
      using rs(2) by (intro task_path_catalog) auto
  qed
  have inj_folder: "\<And>r r'. r \<in> set rs \<Longrightarrow> r' \<in> set rs \<Longrightarrow> r \<noteq> r'
       \<Longrightarrow> parse_parts (folder r) \<noteq> parse_parts (folder r')"
    using reciters_parts_distinct rs(2) by (auto simp: distinct_map inj_on_def)
  have mem: "\<And>r p. p \<in> set (?S r) \<Longrightarrow> \<exists>s a. p = ?P r s a"
    by auto
  have "distinct (concat (map ?S rs))"
  proof (rule distinct_concat_map [OF rs(1)])
    fix r assume "r \<in> set rs"
    show "distinct (?S r)"
    proof (rule distinct_concat_map)
      show "distinct [1..<115::nat]" by simp
    next
      fix s :: nat assume s: "s \<in> set [1..<115]"
      show "distinct (?A r s)"
      proof (simp only: distinct_map, intro conjI distinct_upt inj_onI)
        fix a a'
        assume "a \<in> set [1..<SURAH_AYAH_COUNTS ! (s - 1) + 1]"
          "a' \<in> set [1..<SURAH_AYAH_COUNTS ! (s - 1) + 1]" and e: "?P r s a = ?P r s a'"
        hence "a < 1000" "a' < 1000" "s < 1000"
          using surah_count_bound [OF s] s by auto
        with e show "a = a'" using file_name_inj [of s a s a'] by simp
      qed
    next
      fix s s' :: nat
      assume s: "s \<in> set [1..<115]" "s' \<in> set [1..<115]" "s \<noteq> s'"
      show "set (?A r s) \<inter> set (?A r s') = {}"
      proof (rule ccontr)
        assume "set (?A r s) \<inter> set (?A r s') \<noteq> {}"
        then obtain a a' where aa: "a \<in> set [1..<SURAH_AYAH_COUNTS ! (s - 1) + 1]"
            "a' \<in> set [1..<SURAH_AYAH_COUNTS ! (s' - 1) + 1]" "?P r s a = ?P r s' a'"
          by auto
        hence "a < 1000" "a' < 1000" "s < 1000" "s' < 1000"
          using surah_count_bound [OF s(1)] surah_count_bound [OF s(2)] s by auto
        with aa(3) have "s = s'" using file_name_inj [of s a s' a'] by simp
        with s(3) show False by simp
      qed
    qed
  next
    fix r r' assume r: "r \<in> set rs" "r' \<in> set rs" "r \<noteq> r'"
    show "set (?S r) \<inter> set (?S r') = {}"
    proof (rule ccontr)
      assume "set (?S r) \<inter> set (?S r') \<noteq> {}"
      then obtain p where p: "p \<in> set (?S r)" "p \<in> set (?S r')" by blast
      from mem [OF p(1)] obtain s a where 1: "p = ?P r s a" by blast
      from mem [OF p(2)] obtain s' a' where 2: "p = ?P r' s' a'" by blast
      from 1 2 have "parse_parts (folder r) = parse_parts (folder r')" by simp
      with inj_folder [OF r] show False by simp
    qed
  qed
  with eq show ?thesis by simp
qed

lemma distinct_RECITERS: "distinct RECITERS"
  using reciters_parts_distinct by (rule distinct_map [THEN iffD1, THEN conjunct1])

text \<open>
  Claim C7. In the catalog of the static reciter table, of any selection from it that
  keeps the order of the table, and of the selection that the \<open>--reciters\<close> filter
  makes, the destination paths of the tasks are pairwise distinct, whatever the output
  directory.
\<close>

theorem catalog_destinations_distinct:
  "distinct (map task_path (generate_download_tasks (filter P RECITERS) output_dir))
   \<and> distinct (map task_path (generate_download_tasks (select_reciters s) output_dir))"
proof
  show "distinct (map task_path (generate_download_tasks (filter P RECITERS) output_dir))"
    by (rule catalog_paths_distinct) (simp_all add: distinct_RECITERS)
  show "distinct (map task_path (generate_download_tasks (select_reciters s) output_dir))"
    unfolding select_reciters_def Let_def
    by (rule catalog_paths_distinct) (simp_all add: distinct_RECITERS)
qed

section \<open>Properties of the fetch of one file\<close>

lemma gets_append: "gets (xs @ ys) = gets xs @ gets ys"
  by (induction xs rule: gets.induct) simp_all

lemma sleeps_append: "sleeps (xs @ ys) = sleeps xs @ sleeps ys"
  by (induction xs rule: sleeps.induct) simp_all


lemma cleanup_trace:
  "cleanup temp_path files = (files2, ev2) \<Longrightarrow> gets ev2 = [] \<and> sleeps ev2 = [] \<and> writes ev2 = []"
  by (auto simp: cleanup_def split: if_splits)


lemma retry_or_fail_cases:
  "retry_or_fail k retries attempt msg = (fl, ev) \<Longrightarrow>
     (attempt < retries - 1 \<and> fl = Continue \<and> ev = [Sleep (k * (attempt + 1))])
   \<or> (\<not> attempt < retries - 1 \<and> fl = Return (False, False, Some msg) \<and> ev = [])"
  by (auto simp: retry_or_fail_def split: if_splits)

lemma except_clause_cases:
  "except_clause retries attempt e = (fl, ev) \<Longrightarrow>
     (attempt < retries - 1 \<and> fl = Continue \<and> ev = [Sleep (2 * (attempt + 1))])
   \<or> (\<not> attempt < retries - 1 \<and> fl = Return (False, False, Some (exc_text e)) \<and> ev = [])"
  by (auto simp: except_clause_def exc_text_def dest: retry_or_fail_cases split: exc.splits)

lemma try_attempt_flow:
  assumes "try_attempt url output_path temp_path session retries attempt files = (fl, files1, ev1)"
  shows "(fl = Continue \<longrightarrow> attempt < retries - 1)
       \<and> (\<forall>r. fl = Return r \<longrightarrow> r = (True, False, None) \<or> (\<exists>e. r = (False, False, Some e)))
       \<and> gets ev1 = [url]"
  using assms
  by (auto simp: try_attempt_def Let_def split: reply.splits if_splits option.splits prod.splits
      dest!: except_clause_cases retry_or_fail_cases)


lemma attempts_outcome:
  "fst (attempts url output_path temp_path session retries attempt files) = r \<Longrightarrow>
     r = (True, False, None) \<or> (\<exists>e. r = (False, False, Some e))"
proof (induction url output_path temp_path session retries attempt files arbitrary: r
       rule: attempts.induct)
  case (1 url output_path temp_path session retries attempt files)
  show ?case
  proof (cases "attempt < retries")
    case False
    with "1.prems" show ?thesis by (auto simp: attempts.simps)
  next
    case True
    obtain fl files1 ev1 where t: "try_attempt url output_path temp_path session retries attempt files = (fl, files1, ev1)"
      by (cases "try_attempt url output_path temp_path session retries attempt files") auto
    obtain files2 ev2 where c: "cleanup temp_path files1 = (files2, ev2)"
      by (cases "cleanup temp_path files1") auto
    show ?thesis
    proof (cases fl)
      case (Return r')
      with True t c "1.prems" have "r = r'" by (simp add: attempts.simps)
      with try_attempt_flow [OF t] Return show ?thesis by blast
    next
      case Continue
      with True t c "1.prems"
      have "fst (attempts url output_path temp_path session retries (attempt + 1) files2) = r"
        by (simp add: attempts.simps [of _ _ _ _ _ attempt] split: prod.splits)
      thus ?thesis by (rule "1.IH" [OF True t [symmetric] refl c [symmetric] Continue])
    qed
  qed
qed

lemma attempts_step:
  assumes "attempt < retries"
    and "try_attempt url output_path temp_path session retries attempt files = (fl, files1, ev1)"
    and "cleanup temp_path files1 = (files2, ev2)"
  shows "attempts url output_path temp_path session retries attempt files =
     (case fl of
        Return r \<Rightarrow> (r, files2, ev1 @ ev2)
      | Continue \<Rightarrow>
          (case attempts url output_path temp_path session retries (attempt + 1) files2 of
             (r, files3, ev3) \<Rightarrow> (r, files3, ev1 @ ev2 @ ev3)))"
  using assms by (subst attempts.simps) simp


lemma fetch_outcome:
  "fst (fetch url output_path session retries files) = Inr r \<Longrightarrow>
     r = (True, False, None) \<or> (\<exists>e. r = (False, False, Some e))"
proof -
  assume a: "fst (fetch url output_path session retries files) = Inr r"
  then obtain temp_path where "with_suffix output_path ''.tmp'' = Inr temp_path"
    by (cases "with_suffix output_path ''.tmp''") (auto simp: fetch_def)
  with a have "fst (attempts url output_path temp_path session retries 0 files) = r"
    by (simp add: fetch_def split: prod.splits)
  thus ?thesis by (rule attempts_outcome)
qed

text \<open>
  Claim C10. A value that \<open>download_file\<close> returns has one of three shapes:
  \<open>(True, True, None)\<close> for a skip, \<open>(True, False, None)\<close> for a new download, or
  \<open>(False, False, e)\<close> with an error string \<open>e\<close> for a failure. So a skip is always a
  success, and the error is \<open>None\<close> exactly on success.
\<close>

theorem download_file_outcome_shape:
  "fst (download_file url output_path session retries force files) = Inr r \<Longrightarrow>
     r = (True, True, None) \<or> r = (True, False, None) \<or> (\<exists>e. r = (False, False, Some e))"
proof -
  assume a: "fst (download_file url output_path session retries force files) = Inr r"
  show ?thesis
  proof (cases "already_present force files output_path")
    case True
    with a show ?thesis
      by (auto simp: download_file_def already_present_def split: option.splits if_splits)
  next
    case False
    with a have "fst (fetch url output_path session retries files) = Inr r
        \<or> fst (fetch url output_path session retries (unlink output_path files)) = Inr r"
      by (auto simp: download_file_def already_present_def split: option.splits if_splits prod.splits)
    thus ?thesis using fetch_outcome by blast
  qed
qed

lemma download_file_proceeds:
  assumes "\<not> already_present force files output_path"
  shows "\<exists>files0 ev0. download_file url output_path session retries force files =
            (case fetch url output_path session retries files0 of (r, f, ev) \<Rightarrow> (r, f, ev0 @ ev))
          \<and> gets ev0 = [] \<and> sleeps ev0 = [] \<and> writes ev0 = []
          \<and> files0 output_path = (if force then files output_path else None)
          \<and> (\<forall>q. q \<noteq> output_path \<longrightarrow> files0 q = files q)"
proof (cases "if force then None else files output_path")
  case None
  hence "download_file url output_path session retries force files =
      (case fetch url output_path session retries files of (r, f, ev) \<Rightarrow> (r, f, [] @ ev))"
    by (simp add: download_file_def)
  thus ?thesis using None by (intro exI [of _ files] exI [of _ "[]"]) (simp split: if_splits)
next
  case (Some file_size)
  with assms have "download_file url output_path session retries force files =
      (case fetch url output_path session retries (unlink output_path files) of
         (r, f, ev) \<Rightarrow> (r, f, [Unlink output_path] @ ev))"
    by (simp add: download_file_def already_present_def)
  thus ?thesis using Some
    by (intro exI [of _ "unlink output_path files"] exI [of _ "[Unlink output_path]"])
      (simp add: unlink_def split: if_splits)
qed

lemma fetch_named:
  assumes "path_name output_path \<noteq> []"
  shows "\<exists>temp_path. fetch url output_path session retries files =
           (case attempts url output_path temp_path session retries 0 files of
              (r, files', ev) \<Rightarrow> (Inr r, files', Mkdir (path_parent output_path) # ev))"
  using assms by (auto simp: fetch_def with_suffix_def Let_def)

lemma sum_list_nonzero: "sum_list (filter (\<lambda>chunk. chunk \<noteq> 0) chunks) = sum_list (chunks :: nat list)"
  by (induction chunks) simp_all

lemma sum_list_positive: "sum_list (filter ((<) 0) chunks) = sum_list (chunks :: nat list)"
  by (induction chunks) simp_all

lemma try_attempt_permanent:
  assumes "session url attempt = Response status_code chunks fault"
    and "status_code = 404 \<or> (status_code = 200 \<and> fault = None \<and> sum_list chunks < 1024)"
  shows "\<exists>files1 ev1. try_attempt url output_path temp_path session retries attempt files =
           (Return (False, False,
              Some (if status_code = 404 then ''404 Not Found'' else ''Downloaded file too small'')),
            files1, ev1)
         \<and> gets ev1 = [url] \<and> sleeps ev1 = []"
  using assms
  by (auto simp: try_attempt_def Let_def sum_list_nonzero sum_list_positive MIN_VALID_FILE_SIZE_def)


lemma attempts_permanent:
  assumes "session url attempt = Response status_code chunks fault"
    and "status_code = 404 \<or> (status_code = 200 \<and> fault = None \<and> sum_list chunks < 1024)"
    and "attempt < retries"
  shows "\<exists>files' ev. attempts url output_path temp_path session retries attempt files =
           ((False, False,
              Some (if status_code = 404 then ''404 Not Found'' else ''Downloaded file too small'')),
            files', ev)
         \<and> gets ev = [url] \<and> sleeps ev = []"
proof -
  from try_attempt_permanent [where session = session and url = url, OF assms(1,2)] obtain files1 ev1 where
    t: "try_attempt url output_path temp_path session retries attempt files =
           (Return (False, False,
              Some (if status_code = 404 then ''404 Not Found'' else ''Downloaded file too small'')),
            files1, ev1)" and g: "gets ev1 = [url]" "sleeps ev1 = []"
    by blast
  obtain files2 ev2 where c: "cleanup temp_path files1 = (files2, ev2)"
    by (cases "cleanup temp_path files1") auto
  from attempts_step [OF assms(3) t c] g cleanup_trace [OF c]
  show ?thesis by (simp add: gets_append sleeps_append)
qed



text \<open>
  Claim C3. When a fetch starts (the destination is not already present and at least one
  attempt is allowed) and the first response is a 404, or a 200 whose body is smaller than
  1024 bytes, \<open>download_file\<close> returns a failure after exactly one request, without
  sleeping and without a retry.
\<close>

theorem download_file_permanent_failure:
  assumes "path_name output_path \<noteq> []"
    and "\<not> already_present force files output_path"
    and "0 < retries"
    and "session url 0 = Response status_code chunks fault"
    and "status_code = 404 \<or> (status_code = 200 \<and> fault = None \<and> sum_list chunks < 1024)"
  shows "\<exists>files' ev. download_file url output_path session retries force files =
           (Inr (False, False,
              Some (if status_code = 404 then ''404 Not Found'' else ''Downloaded file too small'')),
            files', ev)
         \<and> gets ev = [url] \<and> sleeps ev = []"
proof -
  from download_file_proceeds [OF assms(2)] obtain files0 ev0 where
    d: "download_file url output_path session retries force files =
            (case fetch url output_path session retries files0 of (r, f, ev) \<Rightarrow> (r, f, ev0 @ ev))"
    and e0: "gets ev0 = []" "sleeps ev0 = []"
    by blast
  from fetch_named [OF assms(1)] obtain temp_path where
    f: "fetch url output_path session retries files0 =
           (case attempts url output_path temp_path session retries 0 files0 of
              (r, files', ev) \<Rightarrow> (Inr r, files', Mkdir (path_parent output_path) # ev))"
    by blast
  from attempts_permanent [where session = session and url = url, OF assms(4,5,3)]
  obtain files' ev where
    a: "attempts url output_path temp_path session retries 0 files0 =
           ((False, False,
              Some (if status_code = 404 then ''404 Not Found'' else ''Downloaded file too small'')),
            files', ev)" and g: "gets ev = [url]" "sleeps ev = []"
    by blast
  show ?thesis
    unfolding d f a using e0 g by (simp add: gets_append sleeps_append)
qed







lemmas fetch_eval =
  download_file_def fetch_def with_suffix_def path_name_def path_parent_def py_suffix_def
  attempts.simps try_attempt_def cleanup_def unlink_def rename_def scripted_def
  except_clause_def retry_or_fail_def no_files_def MIN_VALID_FILE_SIZE_def
  demo_path_def demo_url_def demo_temp_def already_present_def raised_def exc_text_def
  transient_replies_def Let_def

theorem download_file_outcome_shape_witness:
  "fst (download_file demo_url demo_path (scripted transient_replies) 3 False no_files)
     = Inr (False, False, Some ''Connection broken'')
   \<and> ((False, False, Some ''Connection broken'') = (True, True, None)
      \<or> (False, False, Some ''Connection broken'') = (True, False, None)
      \<or> (\<exists>e. (False, False, Some ''Connection broken'') = (False, False, Some e)))"
proof -
  have h: "fst (download_file demo_url demo_path (scripted transient_replies) 3 False no_files)
     = Inr (False, False, Some ''Connection broken'')"
    by (simp add: fetch_eval)
  show ?thesis using h download_file_outcome_shape [OF h] by simp
qed

theorem download_file_permanent_failure_witness:
  "path_name demo_path \<noteq> []
   \<and> \<not> already_present False (no_files(demo_path \<mapsto> 10)) demo_path
   \<and> scripted [Response 200 [512, 100] None] demo_url 0 = Response 200 [512, 100] None
   \<and> (\<exists>files' ev. download_file demo_url demo_path (scripted [Response 200 [512, 100] None]) 3 False
          (no_files(demo_path \<mapsto> 10))
        = (Inr (False, False, Some ''Downloaded file too small''), files', ev)
      \<and> gets ev = [demo_url] \<and> sleeps ev = [])"
proof -
  have h1: "path_name demo_path \<noteq> []" by (simp add: fetch_eval)
  have h2: "\<not> already_present False (no_files(demo_path \<mapsto> 10)) demo_path"
    by (simp add: fetch_eval)
  have h3: "scripted [Response 200 [512, 100] None] demo_url 0 = Response 200 [512, 100] None"
    by (simp add: scripted_def)
  have h4: "(200::int) = 404 \<or> ((200::int) = 200 \<and> (None :: exc option) = None
      \<and> sum_list [512, 100 :: nat] < 1024)"
    by simp
  have h5: "(0::int) < 3" by simp
  from download_file_permanent_failure
    [where session = "scripted [Response 200 [512, 100] None]" and url = demo_url
       and files = "no_files(demo_path \<mapsto> 10)" and output_path = demo_path,
     OF h1 h2 h5 h3 h4] h1 h2 h3
  show ?thesis by simp
qed





section \<open>Properties of the download phase and of the exit status\<close>

lemma download_worker_counts:
  assumes "download_worker task session stats force files = (res, stats', files', ev)"
  shows "failed stats' = failed stats + (if failed_outcome res then 1 else 0)
       \<and> length (failed_files stats') = length (failed_files stats) + (if failed_outcome res then 1 else 0)
       \<and> downloaded stats' + skipped stats' + failed stats'
           = downloaded stats + skipped stats + failed stats + (if isl res then 0 else 1)
       \<and> total stats' = total stats"
  using assms
  by (auto simp: download_worker_def failed_outcome_def split: prod.splits sum.splits if_splits)

lemma step_counted:
  "counted st \<Longrightarrow> counted (step tasks session force output_dir st ev)"
proof (cases ev)
  case (WorkerDone i)
  assume c: "counted st"
  show ?thesis
  proof (cases "i < length tasks")
    case False
    with c WorkerDone show ?thesis by simp
  next
    case True
    obtain res stats' files' tr where
      w: "download_worker (tasks ! i) session (rs_stats st) force (rs_files st) = (res, stats', files', tr)"
      by (cases "download_worker (tasks ! i) session (rs_stats st) force (rs_files st)") auto
    from download_worker_counts [OF w] c True WorkerDone w show ?thesis
      by (auto simp: counted_def split: if_splits)
  qed
next
  case (Completed t)
  assume "counted st"
  thus ?thesis using Completed by (simp add: counted_def Let_def)
next
  case KeyboardInterrupt
  assume "counted st"
  thus ?thesis using KeyboardInterrupt by (simp add: counted_def)
qed

lemma run_counted:
  "counted st \<Longrightarrow> counted (foldl (step tasks session force output_dir) st sched)"
  by (induction sched arbitrary: st) (simp_all add: step_counted)

lemma finish_status:
  "finish output_dir reciters now st = (status, st') \<Longrightarrow>
     (status = 0 \<longleftrightarrow> failed (rs_stats st) = 0) \<and> (status = 0 \<or> status = 1)
     \<and> rs_stats st' = rs_stats st \<and> rs_results st' = rs_results st"
  by (auto simp: finish_def Let_def split: if_splits)

text \<open>The shape of \<open>main\<close> once the download phase is reached.\<close>

lemma main_ran:
  assumes "main a e = (status, Some st)"
  shows "finish (parse_parts (the (arg_output a))) (chosen_reciters a) (env_end e)
           (foldl (step (generate_download_tasks (chosen_reciters a) (parse_parts (the (arg_output a))))
                     (env_session e) (arg_force a) (parse_parts (the (arg_output a))))
              (initial_state a e) (env_schedule e))
         = (status, st)"
  using assms
  by (auto simp: main_def Let_def chosen_reciters_def initial_state_def
      split: if_splits prod.splits option.splits)

lemma initial_counted: "counted (initial_state a e)"
  by (simp add: counted_def initial_state_def start_def new_stats_def)

lemma main_counts:
  assumes "main a e = (status, Some st)"
  shows "(status = 0 \<longleftrightarrow> failed (rs_stats st) = 0) \<and> (status = 0 \<or> status = 1) \<and> counted st"
proof -
  let ?st1 = "foldl (step (generate_download_tasks (chosen_reciters a) (parse_parts (the (arg_output a))))
                     (env_session e) (arg_force a) (parse_parts (the (arg_output a))))
              (initial_state a e) (env_schedule e)"
  have c: "counted ?st1" by (rule run_counted [OF initial_counted])
  from finish_status [OF main_ran [OF assms]] have
    f: "status = 0 \<longleftrightarrow> failed (rs_stats ?st1) = 0" "status = 0 \<or> status = 1"
    and eq: "rs_stats st = rs_stats ?st1" "rs_results st = rs_results ?st1"
    by blast+
  from c have "counted st" unfolding counted_def eq .
  with f show ?thesis unfolding eq by blast
qed

lemma main_ran_workers:
  assumes "main a e = (status, Some st)"
  shows "0 < arg_workers a"
  using assms
  by (auto simp: main_def Let_def split: if_splits prod.splits option.splits)

text \<open>
  Claim C9. A run of \<open>main\<close> that reaches the download phase (the pool has been made, so
  the number of workers is positive) ends with status 0 exactly when \<open>stats.failed\<close> is 0,
  and with a nonzero status exactly when the result of some task is a failure;
  \<open>stats.failed\<close> is the number of failed results.
\<close>

theorem main_exit_status:
  assumes "main a e = (status, Some st)"
  shows "failed (rs_stats st) = length (filter failed_outcome (rs_results st))
       \<and> (status = 0 \<longleftrightarrow> failed (rs_stats st) = 0)
       \<and> (status \<noteq> 0 \<longleftrightarrow> (\<exists>res \<in> set (rs_results st). failed_outcome res))
       \<and> 0 < arg_workers a"
proof -
  from main_counts [OF assms] have
    1: "status = 0 \<longleftrightarrow> failed (rs_stats st) = 0" and
    2: "failed (rs_stats st) = length (filter failed_outcome (rs_results st))"
    by (simp_all add: counted_def)
  have "(filter failed_outcome (rs_results st) = []) \<longleftrightarrow> \<not> (\<exists>res \<in> set (rs_results st). failed_outcome res)"
    by (simp add: filter_empty_conv)
  with 1 2 main_ran_workers [OF assms] show ?thesis by auto
qed

lemma checkpoint_times_append:
  "checkpoint_times (xs @ ys) = checkpoint_times xs @ checkpoint_times ys"
  by (induction xs rule: checkpoint_times.induct) simp_all

lemma checkpoint_times_save_progress:
  "checkpoint_times [save_progress stats output_dir now] = [now]"
  by (simp add: save_progress_def)

text \<open>
  What the loop writes: only checkpoints, at the checkpoint path, one for each reading of the
  clock at which a save is due; after an interrupt nothing more.
\<close>

lemma step_written:
  "\<exists>cps. rs_written (step tasks session force output_dir st ev) = rs_written st @ cps
     \<and> length (checkpoint_times cps) = length cps
     \<and> map fst cps = replicate (length cps) (joinpath output_dir ''.download_progress.json'')
     \<and> (rs_interrupted st \<longrightarrow> cps = [] \<and> rs_interrupted (step tasks session force output_dir st ev))
     \<and> (\<not> rs_interrupted st \<longrightarrow>
           (ev = KeyboardInterrupt \<longrightarrow> cps = [] \<and> rs_interrupted (step tasks session force output_dir st ev))
         \<and> (ev \<noteq> KeyboardInterrupt \<longrightarrow>
               \<not> rs_interrupted (step tasks session force output_dir st ev)
             \<and> checkpoint_times cps
                  @ due_saves (rs_last_save_time (step tasks session force output_dir st ev)) ts
                 = due_saves (rs_last_save_time st) (tick_times [ev] @ ts)))"
proof (cases ev)
  case (WorkerDone i)
  thus ?thesis by (intro exI [of _ "[]"]) (simp split: prod.splits)
next
  case (Completed t)
  show ?thesis
  proof (cases "\<not> rs_interrupted st \<and> t - rs_last_save_time st \<ge> 30")
    case True
    thus ?thesis using Completed
      by (intro exI [of _ "[save_progress (rs_stats st) output_dir t]"])
        (simp add: Let_def save_progress_def)
  next
    case False
    thus ?thesis using Completed
      by (intro exI [of _ "[]"]) (auto simp: Let_def)
  qed
next
  case KeyboardInterrupt
  thus ?thesis by (intro exI [of _ "[]"]) simp
qed

lemma run_interrupted:
  "rs_interrupted st \<Longrightarrow>
     rs_written (foldl (step tasks session force output_dir) st sched) = rs_written st"
proof (induction sched arbitrary: st)
  case Nil
  then show ?case by simp
next
  case (Cons ev sched)
  from step_written [of tasks session force output_dir st ev "[]"] Cons.prems
  have w: "rs_written (step tasks session force output_dir st ev) = rs_written st"
    and i: "rs_interrupted (step tasks session force output_dir st ev)"
    by auto
  from Cons.IH [OF i] w show ?case by simp
qed

lemma run_written:
  assumes "\<not> rs_interrupted st"
  shows "\<exists>cps. rs_written (foldl (step tasks session force output_dir) st sched) = rs_written st @ cps
     \<and> length (checkpoint_times cps) = length cps
     \<and> map fst cps = replicate (length cps) (joinpath output_dir ''.download_progress.json'')
     \<and> checkpoint_times cps = due_saves (rs_last_save_time st) (tick_times (before_interrupt sched))"
  using assms
proof (induction sched arbitrary: st)
  case Nil
  then show ?case by (simp add: before_interrupt_def)
next
  case (Cons ev sched)
  let ?st = "step tasks session force output_dir st ev"
  show ?case
  proof (cases "ev = KeyboardInterrupt")
    case True
    hence "rs_interrupted ?st" by simp
    from run_interrupted [OF this] True show ?thesis
      by (intro exI [of _ "[]"]) (simp add: before_interrupt_def)
  next
    case False
    from step_written [of tasks session force output_dir st ev "tick_times (before_interrupt sched)"]
      Cons.prems False
    obtain c1 where c1: "rs_written ?st = rs_written st @ c1"
      "length (checkpoint_times c1) = length c1"
      "map fst c1 = replicate (length c1) (joinpath output_dir ''.download_progress.json'')"
      "\<not> rs_interrupted ?st"
      "checkpoint_times c1 @ due_saves (rs_last_save_time ?st) (tick_times (before_interrupt sched))
         = due_saves (rs_last_save_time st) (tick_times [ev] @ tick_times (before_interrupt sched))"
      by auto
    from Cons.IH [OF c1(4)] obtain c2 where c2:
      "rs_written (foldl (step tasks session force output_dir) ?st sched) = rs_written ?st @ c2"
      "length (checkpoint_times c2) = length c2"
      "map fst c2 = replicate (length c2) (joinpath output_dir ''.download_progress.json'')"
      "checkpoint_times c2 = due_saves (rs_last_save_time ?st) (tick_times (before_interrupt sched))"
      by auto
    have t: "tick_times (before_interrupt (ev # sched)) = tick_times [ev] @ tick_times (before_interrupt sched)"
      using False by (cases ev) (simp_all add: before_interrupt_def)
    have w: "rs_written (foldl (step tasks session force output_dir) st (ev # sched))
        = rs_written st @ (c1 @ c2)"
      using c1(1) c2(1) by simp
    have l: "length (checkpoint_times (c1 @ c2)) = length (c1 @ c2)"
      using c1(2) c2(2) by (simp add: checkpoint_times_append)
    have f: "map fst (c1 @ c2)
        = replicate (length (c1 @ c2)) (joinpath output_dir ''.download_progress.json'')"
      using c1(3) c2(3) by (simp add: replicate_add)
    have "checkpoint_times (c1 @ c2)
        = checkpoint_times c1
          @ due_saves (rs_last_save_time ?st) (tick_times (before_interrupt sched))"
      using c2(4) by (simp add: checkpoint_times_append)
    also have "\<dots> = due_saves (rs_last_save_time st) (tick_times (before_interrupt (ev # sched)))"
      using c1(5) t by simp
    finally have d: "checkpoint_times (c1 @ c2)
        = due_saves (rs_last_save_time st) (tick_times (before_interrupt (ev # sched)))" .
    from w l f d show ?thesis by blast
  qed
qed

lemma finish_written:
  "finish output_dir reciters now st = (status, st') \<Longrightarrow>
     \<exists>m. rs_written st' = rs_written st
       @ (if failed_files (rs_stats st') \<noteq> []
          then [(joinpath output_dir ''failed_downloads.json'', FailedDoc (failed_files (rs_stats st')))]
          else [])
       @ [(joinpath output_dir ''manifest.json'', ManifestDoc m)]"
  by (auto simp: finish_def Let_def split: if_splits)

text \<open>
  Claim C8, as the code has it. In every run of the download phase, interrupted or not, the
  checkpoints are written on the interval only: they are the first files written, all at the
  checkpoint path, and their timestamps are the clock readings of the loop, up to the
  interrupt if there is one, at which 30 seconds had passed since the previous save. When
  the run ends no checkpoint is written: what follows is the report of the failed files, if
  there are any, and last the manifest.
\<close>

theorem main_checkpoints_periodic:
  assumes "main a e = (status, Some st)"
  shows "\<exists>cps m. rs_written st = cps
           @ (if failed_files (rs_stats st) \<noteq> []
              then [(joinpath (parse_parts (the (arg_output a))) ''failed_downloads.json'',
                     FailedDoc (failed_files (rs_stats st)))]
              else [])
           @ [(joinpath (parse_parts (the (arg_output a))) ''manifest.json'', ManifestDoc m)]
         \<and> length (checkpoint_times cps) = length cps
         \<and> map fst cps = replicate (length cps)
               (joinpath (parse_parts (the (arg_output a))) ''.download_progress.json'')
         \<and> checkpoint_times cps
             = due_saves (env_loop_start e) (tick_times (before_interrupt (env_schedule e)))"
proof -
  let ?out = "parse_parts (the (arg_output a))"
  let ?tasks = "generate_download_tasks (chosen_reciters a) ?out"
  let ?st1 = "foldl (step ?tasks (env_session e) (arg_force a) ?out) (initial_state a e) (env_schedule e)"
  have i: "\<not> rs_interrupted (initial_state a e)" "rs_written (initial_state a e) = []"
    "rs_last_save_time (initial_state a e) = env_loop_start e"
    by (simp_all add: initial_state_def)
  from run_written [OF i(1), of ?tasks "env_session e" "arg_force a" ?out "env_schedule e"] i(2,3)
  obtain cps where c: "rs_written ?st1 = cps" "length (checkpoint_times cps) = length cps"
    "map fst cps = replicate (length cps) (joinpath ?out ''.download_progress.json'')"
    "checkpoint_times cps = due_saves (env_loop_start e) (tick_times (before_interrupt (env_schedule e)))"
    by auto
  from finish_written [OF main_ran [OF assms]] c(1) obtain m where
    "rs_written st = cps
       @ (if failed_files (rs_stats st) \<noteq> []
          then [(joinpath ?out ''failed_downloads.json'', FailedDoc (failed_files (rs_stats st)))]
          else [])
       @ [(joinpath ?out ''manifest.json'', ManifestDoc m)]"
    by auto
  with c(2,3,4) show ?thesis by blast
qed

lemma worker_skips_present:
  assumes "files (task_path task) = Some 2048"
  shows "download_worker task session stats False files
     = (Inr (fst task, True, True, None), stats\<lparr>skipped := skipped stats + 1\<rparr>, files, [])"
  using assms
  by (cases task)
    (simp add: download_worker_def download_file_def task_path_def MIN_VALID_FILE_SIZE_def)

lemma quick_run:
  assumes "n \<le> length tasks"
    and "\<And>i. i < length tasks \<Longrightarrow> rs_files st (task_path (tasks ! i)) = Some 2048"
    and "\<not> rs_interrupted st" "rs_last_save_time st = 0" "rs_last_print_time st = 0"
  shows "rs_files (foldl (step tasks session False output_dir) st (quick_schedule n)) = rs_files st
       \<and> \<not> rs_interrupted (foldl (step tasks session False output_dir) st (quick_schedule n))
       \<and> rs_last_save_time (foldl (step tasks session False output_dir) st (quick_schedule n)) = 0
       \<and> rs_last_print_time (foldl (step tasks session False output_dir) st (quick_schedule n)) = 0
       \<and> rs_written (foldl (step tasks session False output_dir) st (quick_schedule n)) = rs_written st
       \<and> failed (rs_stats (foldl (step tasks session False output_dir) st (quick_schedule n)))
           = failed (rs_stats st)
       \<and> failed_files (rs_stats (foldl (step tasks session False output_dir) st (quick_schedule n)))
           = failed_files (rs_stats st)
       \<and> length (rs_results (foldl (step tasks session False output_dir) st (quick_schedule n)))
           = length (rs_results st) + n"
  using assms(1)
proof (induction n)
  case 0
  with assms show ?case by simp
next
  case (Suc n)
  hence lt: "n < length tasks" and le: "n \<le> length tasks" by simp_all
  let ?st = "foldl (step tasks session False output_dir) st (quick_schedule n)"
  have w: "download_worker (tasks ! n) session (rs_stats ?st) False (rs_files st)
     = (Inr (fst (tasks ! n), True, True, None),
        (rs_stats ?st)\<lparr>skipped := skipped (rs_stats ?st) + 1\<rparr>, rs_files st, [])"
    by (rule worker_skips_present) (rule assms(2) [OF lt])
  from Suc.IH [OF le] lt show ?case
    by (simp add: w Let_def)
qed

lemma rerun_tasks:
  "length (generate_download_tasks (select_reciters ''Husary_128kbps'') (parse_parts ''out'')) = 6236"
proof -
  have "length (select_reciters ''Husary_128kbps'') = 1"
    by (simp add: select_reciters_def py_strip_def is_space_def RECITERS_def)
  thus ?thesis by (simp add: catalog_length sum_surah_ayah_counts)
qed

lemma rerun_main:
  "\<exists>st. main rerun_args rerun_env = (0, Some st)
      \<and> map fst (rs_written st) = [[''out'', ''manifest.json'']]
      \<and> length (rs_results st) = 6236
      \<and> failed (rs_stats st) = 0"
proof -
  define tasks where "tasks = generate_download_tasks (select_reciters ''Husary_128kbps'') (parse_parts ''out'')"
  define st0 where "st0 = \<lparr>rs_files = complete_download,
      rs_stats = start new_stats (length tasks) 0,
      rs_results = [], rs_last_print_time = 0, rs_last_save_time = 0,
      rs_written = [], rs_interrupted = False\<rparr>"
  define st1 where "st1 = foldl (step tasks (scripted []) False (parse_parts ''out'')) st0 (quick_schedule 6236)"
  have len: "length tasks = 6236" unfolding tasks_def by (rule rerun_tasks)
  have sel: "select_reciters ''Husary_128kbps'' \<noteq> []"
    using rerun_tasks by (auto simp: generate_download_tasks_def)
  have low: "py_lower ''y'' = ''y''" by (simp add: py_lower_def lower_char_def upper_letters_def lower_letters_def)
  have m: "main rerun_args rerun_env =
      (case finish (parse_parts ''out'') (select_reciters ''Husary_128kbps'') 2 st1 of
         (status, st2) \<Rightarrow> (status, Some st2))"
    unfolding main_def rerun_args_def rerun_env_def st1_def st0_def tasks_def
    using sel low by (simp add: Let_def)
  have q: "rs_written st1 = []" "failed (rs_stats st1) = 0" "failed_files (rs_stats st1) = []"
    "length (rs_results st1) = 6236"
  proof -
    have present: "\<And>i. i < length tasks \<Longrightarrow> rs_files st0 (task_path (tasks ! i)) = Some 2048"
      by (simp add: st0_def complete_download_def tasks_def)
    have le: "6236 \<le> length tasks" using len by simp
    from quick_run [of 6236 tasks st0 "scripted []" "parse_parts ''out''", OF le present]
    show "rs_written st1 = []" "failed (rs_stats st1) = 0" "failed_files (rs_stats st1) = []"
      "length (rs_results st1) = 6236"
      unfolding st1_def by (simp_all add: st0_def start_def new_stats_def)
  qed
  have p: "joinpath (parse_parts ''out'') ''manifest.json'' = [''out'', ''manifest.json'']"
    by (simp add: joinpath_def parse_parts_def posix_root_def)
  show ?thesis
    unfolding m using q p by (simp add: finish_def Let_def)
qed

lemma first_task:
  "\<exists>rest. generate_download_tasks (r # rs) out = make_task r out 1 1 # rest"
proof -
  have c: "SURAH_AYAH_COUNTS ! (1 - 1) + 1 = 8" by (simp add: SURAH_AYAH_COUNTS_def)
  have u1: "[1..<115] = 1 # [Suc 1..<115]" by (rule upt_conv_Cons) simp
  have u2: "[1..<8] = 1 # [Suc 1..<8]" by (rule upt_conv_Cons) simp
  show ?thesis
    unfolding generate_download_tasks_concat
    by (simp only: list.map concat.simps u1 u2 c append_Cons) blast
qed

lemma select_husary: "select_reciters ''Husary_128kbps'' =
   [\<lparr>folder = ''Husary_128kbps'', name = ''Mahmoud Khalil Al-Hussary'', style = ''Murattal''\<rparr>]"
  by (simp add: select_reciters_def py_strip_def is_space_def RECITERS_def)

lemma husary_first_task:
  "generate_download_tasks (select_reciters ''Husary_128kbps'') (parse_parts ''out'') ! 0
     = (demo_url, demo_path, ''Mahmoud Khalil Al-Hussary'', 1, 1)"
proof -
  have m: "make_task \<lparr>folder = ''Husary_128kbps'', name = ''Mahmoud Khalil Al-Hussary'', style = ''Murattal''\<rparr>
      (parse_parts ''out'') 1 1 = (demo_url, demo_path, ''Mahmoud Khalil Al-Hussary'', 1, 1)"
    by (simp add: make_task_def Let_def zfill_def str_nat.simps digit_char_def BASE_URL_def
        joinpath_def parse_parts_def posix_root_def demo_url_def demo_path_def numeral_2_eq_2)
  from first_task [of "\<lparr>folder = ''Husary_128kbps'', name = ''Mahmoud Khalil Al-Hussary'', style = ''Murattal''\<rparr>" "[]" "parse_parts ''out''"]
  show ?thesis unfolding select_husary m by auto
qed

lemma worker_404:
  "download_worker (demo_url, demo_path, ''Mahmoud Khalil Al-Hussary'', s, a)
      (scripted [Response 404 [] None]) stats False no_files
   = (Inr (demo_url, False, False, Some ''404 Not Found''),
      stats\<lparr>failed := failed stats + 1,
             failed_files := failed_files stats @
               [\<lparr>ff_url = demo_url, ff_path = ''out/Husary_128kbps/001001.mp3'',
                 ff_reciter = ''Mahmoud Khalil Al-Hussary'', ff_surah = s, ff_ayah = a,
                 ff_error = Some ''404 Not Found''\<rparr>]\<rparr>,
      no_files, [Mkdir [''out'', ''Husary_128kbps''], Get demo_url])"
  by (simp add: download_worker_def fetch_eval path_str_def)

lemma failing_main:
  "\<exists>st. main rerun_args failing_env = (1, Some st)
      \<and> rs_results st = [Inr (demo_url, False, False, Some ''404 Not Found'')]
      \<and> failed (rs_stats st) = 1
      \<and> map fst (rs_written st) = [[''out'', ''failed_downloads.json''], [''out'', ''manifest.json'']]"
proof -
  have len: "0 < length (generate_download_tasks (select_reciters ''Husary_128kbps'') (parse_parts ''out''))"
    using rerun_tasks by simp
  have sel: "select_reciters ''Husary_128kbps'' \<noteq> []" by (simp add: select_husary)
  have low: "py_lower ''Y'' = ''y''" by (simp add: py_lower_def lower_char_def upper_letters_def lower_letters_def)
  have p: "joinpath (parse_parts ''out'') ''manifest.json'' = [''out'', ''manifest.json'']"
    "joinpath (parse_parts ''out'') ''failed_downloads.json'' = [''out'', ''failed_downloads.json'']"
    by (simp_all add: joinpath_def parse_parts_def posix_root_def)
  show ?thesis
    unfolding main_def rerun_args_def failing_env_def
    using sel low len
    by (simp add: Let_def husary_first_task worker_404 finish_def p start_def new_stats_def)
qed

lemma quick_schedule_no_interrupt: "KeyboardInterrupt \<notin> set (quick_schedule n)"
  by (induction n) simp_all

lemma due_saves_example: "due_saves 0 [10, 31, 45, 62] = [31, 62]"
  by simp

text \<open>
  Claim C8 as it is written fails, for a run that completes and for a run that is
  interrupted. In the second run over a complete download all 6236 tasks are done within a
  second, the run ends with status 0, and the only file written is the manifest. In the run
  that the user interrupts after the first file has failed, the files written are the report
  of the failed files and the manifest. Neither run writes a checkpoint when it ends.
\<close>

theorem main_rerun_writes_no_checkpoint:
  "fst (main rerun_args rerun_env) = 0
   \<and> futures_done (main rerun_args rerun_env) = 6236
   \<and> written_paths (main rerun_args rerun_env) = [[''out'', ''manifest.json'']]
   \<and> fst (main rerun_args failing_env) = 1
   \<and> written_paths (main rerun_args failing_env)
       = [[''out'', ''failed_downloads.json''], [''out'', ''manifest.json'']]"
proof -
  from rerun_main obtain st where "main rerun_args rerun_env = (0, Some st)"
    "map fst (rs_written st) = [[''out'', ''manifest.json'']]" "length (rs_results st) = 6236"
    by (elim exE conjE)
  moreover from failing_main obtain st' where "main rerun_args failing_env = (1, Some st')"
    "map fst (rs_written st') = [[''out'', ''failed_downloads.json''], [''out'', ''manifest.json'']]"
    by (elim exE conjE)
  ultimately show ?thesis by (simp add: futures_done_def written_paths_def)
qed

theorem main_checkpoints_periodic_witness:
  "(\<exists>st cps m. main rerun_args rerun_env = (0, Some st)
       \<and> rs_written st = cps @ [([''out'', ''manifest.json''], ManifestDoc m)]
       \<and> checkpoint_times cps = [])
   \<and> (\<exists>st cps m. main rerun_args failing_env = (1, Some st)
       \<and> rs_written st = cps
            @ [([''out'', ''failed_downloads.json''], FailedDoc (failed_files (rs_stats st))),
               ([''out'', ''manifest.json''], ManifestDoc m)]
       \<and> checkpoint_times cps = [])"
proof -
  have out: "parse_parts (the (arg_output rerun_args)) = [''out'']"
    by (simp add: rerun_args_def parse_parts_def posix_root_def)
  have p: "joinpath [''out''] ''manifest.json'' = [''out'', ''manifest.json'']"
    "joinpath [''out''] ''failed_downloads.json'' = [''out'', ''failed_downloads.json'']"
    by (simp_all add: joinpath_def parse_parts_def posix_root_def)
  have d1: "due_saves (env_loop_start rerun_env) (tick_times (before_interrupt (env_schedule rerun_env))) = []"
  proof -
    have "\<And>n. due_saves 0 (tick_times (quick_schedule n)) = []"
    proof -
      fix n
      have a: "\<And>xs ys. tick_times (xs @ ys) = tick_times xs @ tick_times ys"
      proof -
        fix xs ys :: "sched_event list"
        show "tick_times (xs @ ys) = tick_times xs @ tick_times ys"
          by (induction xs rule: tick_times.induct) simp_all
      qed
      have b: "\<And>ts us. due_saves 0 ts = [] \<Longrightarrow> due_saves 0 (ts @ us) = due_saves 0 us"
      proof -
        fix ts us :: "real list"
        show "due_saves 0 ts = [] \<Longrightarrow> due_saves 0 (ts @ us) = due_saves 0 us"
          by (induction ts) (simp_all split: if_splits)
      qed
      show "due_saves 0 (tick_times (quick_schedule n)) = []"
        by (induction n) (simp_all add: a b)
    qed
    moreover have "before_interrupt (quick_schedule 6236) = quick_schedule 6236"
      unfolding before_interrupt_def
      using quick_schedule_no_interrupt [of 6236] by (auto simp: takeWhile_eq_all_conv)
    ultimately show ?thesis by (simp add: rerun_env_def)
  qed
  have d2: "due_saves (env_loop_start failing_env) (tick_times (before_interrupt (env_schedule failing_env))) = []"
    by (simp add: failing_env_def before_interrupt_def)
  from rerun_main obtain st where m: "main rerun_args rerun_env = (0, Some st)"
    and f: "failed (rs_stats st) = 0"
    by (elim exE conjE)
  from main_counts [OF m] f have ff: "failed_files (rs_stats st) = []"
    by (simp add: counted_def)
  from main_checkpoints_periodic [OF m] obtain cps mf where
    "rs_written st = cps
           @ (if failed_files (rs_stats st) \<noteq> []
              then [(joinpath (parse_parts (the (arg_output rerun_args))) ''failed_downloads.json'',
                     FailedDoc (failed_files (rs_stats st)))]
              else [])
           @ [(joinpath (parse_parts (the (arg_output rerun_args))) ''manifest.json'', ManifestDoc mf)]"
    "checkpoint_times cps
             = due_saves (env_loop_start rerun_env) (tick_times (before_interrupt (env_schedule rerun_env)))"
    by (elim exE conjE)
  with ff out p d1 m have 1: "\<exists>st cps m. main rerun_args rerun_env = (0, Some st)
       \<and> rs_written st = cps @ [([''out'', ''manifest.json''], ManifestDoc m)]
       \<and> checkpoint_times cps = []"
    by (intro exI [of _ st] exI [of _ cps] exI [of _ mf]) simp
  from failing_main obtain st' where m': "main rerun_args failing_env = (1, Some st')"
    and f': "failed (rs_stats st') = 1"
    by (elim exE conjE)
  from main_counts [OF m'] f' have ff': "failed_files (rs_stats st') \<noteq> []"
    by (auto simp: counted_def)
  from main_checkpoints_periodic [OF m'] obtain cps' mf' where
    "rs_written st' = cps'
           @ (if failed_files (rs_stats st') \<noteq> []
              then [(joinpath (parse_parts (the (arg_output rerun_args))) ''failed_downloads.json'',
                     FailedDoc (failed_files (rs_stats st')))]
              else [])
           @ [(joinpath (parse_parts (the (arg_output rerun_args))) ''manifest.json'', ManifestDoc mf')]"
    "checkpoint_times cps'
             = due_saves (env_loop_start failing_env) (tick_times (before_interrupt (env_schedule failing_env)))"
    by (elim exE conjE)
  with ff' out p d2 m' have 2: "\<exists>st cps m. main rerun_args failing_env = (1, Some st)
       \<and> rs_written st = cps
            @ [([''out'', ''failed_downloads.json''], FailedDoc (failed_files (rs_stats st))),
               ([''out'', ''manifest.json''], ManifestDoc m)]
       \<and> checkpoint_times cps = []"
    by (intro exI [of _ st'] exI [of _ cps'] exI [of _ mf']) simp
  from 1 2 show ?thesis by (rule conjI)
qed

theorem main_exit_status_witness:
  "(\<exists>st. main rerun_args rerun_env = (0, Some st)
        \<and> failed (rs_stats st) = 0
        \<and> filter failed_outcome (rs_results st) = [])
   \<and> (\<exists>st. main rerun_args failing_env = (1, Some st)
        \<and> failed (rs_stats st) = 1
        \<and> (\<exists>res \<in> set (rs_results st). failed_outcome res))"
proof -
  from rerun_main obtain st where m: "main rerun_args rerun_env = (0, Some st)"
    by (elim exE conjE)
  from main_exit_status [OF m] have "failed (rs_stats st) = 0"
    "filter failed_outcome (rs_results st) = []"
    by simp_all
  with m have 1: "\<exists>st. main rerun_args rerun_env = (0, Some st)
        \<and> failed (rs_stats st) = 0
        \<and> filter failed_outcome (rs_results st) = []"
    by (intro exI [of _ st] conjI)
  from failing_main obtain st' where m': "main rerun_args failing_env = (1, Some st')"
    and f: "failed (rs_stats st') = 1"
    by (elim exE conjE)
  from main_exit_status [OF m'] have "\<exists>res \<in> set (rs_results st'). failed_outcome res"
    by simp
  with m' f have 2: "\<exists>st. main rerun_args failing_env = (1, Some st)
        \<and> failed (rs_stats st) = 1
        \<and> (\<exists>res \<in> set (rs_results st). failed_outcome res)"
    by (intro exI [of _ st'] conjI)
  from 1 2 show ?thesis by (rule conjI)
qed

text \<open>
  A run that does not reach the download phase can end with a nonzero status without any
  failed outcome: no reciter matches the filter.
\<close>

lemma main_no_matching_reciter:
  "main (rerun_args\<lparr>arg_reciters := Some ''nobody''\<rparr>) e = (1, None)"
  by (simp add: main_def rerun_args_def select_reciters_def py_strip_def is_space_def
      RECITERS_def Let_def)

text \<open>
  With a number of workers that is not positive the pool cannot be made: the program ends
  with status 1 before the download phase, and no task has failed.
\<close>

lemma main_no_workers:
  "main (rerun_args\<lparr>arg_workers := 0\<rparr>) rerun_env = (1, None)"
  by (simp add: main_def rerun_args_def rerun_env_def select_reciters_def py_strip_def is_space_def
      RECITERS_def Let_def py_lower_def lower_char_def upper_letters_def lower_letters_def)

end
